theory Spec2Isabelle
  imports Complex_Main "HOL-Library.Sublist"
begin

section \<open>The blog content pipeline (lib/blogs.ts)\<close>

text \<open>
  The module reads markdown files from the directory \<open>blogs\<close>, splits the frontmatter
  from the body, validates the frontmatter, renders the body to HTML and returns post
  objects. Every function of the module is embedded below under its own name. The
  asynchronous functions await each call in sequence, so they are modelled as ordinary
  sequential functions; a thrown exception (or rejected promise) is the left injection
  of a sum, and the lines written with \<open>console.warn\<close> are returned as a log next to
  the result.
\<close>

subsection \<open>JavaScript values\<close>

text \<open>
  The frontmatter is a \<open>Record<string, unknown>\<close>: its values are whatever the YAML
  parser produced. A number is \<open>NaN\<close>, an infinity or a finite value (every finite
  double is a rational; \<open>-0\<close> is \<open>Finite 0\<close>). A \<open>Date\<close> object carries its time
  value in milliseconds, \<open>None\<close> for an invalid date.
\<close>

datatype jsnum = NaN | PosInfinity | NegInfinity | Finite rat

datatype jsval =
    JUndefined
  | JNull
  | JBool bool
  | JNum jsnum
  | JStr string
  | JDate "int option"
  | JArr "jsval list"
  | JObj "(string \<times> jsval) list"

text \<open>\<open>!v\<close> is true exactly for the falsy values.\<close>

fun truthy :: "jsval \<Rightarrow> bool" where
  "truthy JUndefined = False"
| "truthy JNull = False"
| "truthy (JBool b) = b"
| "truthy (JNum n) = (n \<noteq> NaN \<and> n \<noteq> Finite 0)"
| "truthy (JStr s) = (s \<noteq> [])"
| "truthy (JDate t) = True"
| "truthy (JArr xs) = True"
| "truthy (JObj kvs) = True"

text \<open>\<open>typeof v === "string"\<close>.\<close>

fun isString :: "jsval \<Rightarrow> bool" where
  "isString (JStr s) = True"
| "isString v = False"

text \<open>Property access \<open>data.k\<close> on the frontmatter object: \<open>undefined\<close> when absent.\<close>

type_synonym frontmatter = "(string \<times> jsval) list"

definition field :: "frontmatter \<Rightarrow> string \<Rightarrow> jsval" where
  "field data k = (case map_of data k of None \<Rightarrow> JUndefined | Some v \<Rightarrow> v)"

subsection \<open>Errors, log and environment\<close>

text \<open>
  \<open>Error\<close> is an exception the module throws itself (\<open>throw new Error(msg)\<close>);
  \<open>TypeError\<close> is one thrown by the runtime when a value cannot be converted to a
  primitive; \<open>FsError\<close> is one thrown by \<open>fs.readdirSync\<close> or
  \<open>fs.readFileSync\<close>; \<open>LibError\<close> is one thrown by gray-matter or by the unified
  processor.
\<close>

datatype error = Error string | TypeError string | FsError string | LibError string

type_synonym log = "string list"

text \<open>
  What \<open>fs.existsSync\<close> and \<open>fs.readFileSync\<close> see at a path: nothing (\<open>None\<close>), a
  file that can be read, or something that exists and cannot be read as a file (a
  directory, a file without permission).
\<close>

datatype fsnode = Readable string | Unreadable

text \<open>
  The directory \<open>blogs\<close>: absent, listed by \<open>fs.readdirSync\<close>, or present and not
  listable (not a directory, no permission).
\<close>

datatype dirnode = DirMissing | DirListing "string list" | DirUnlistable

record BlogPostMeta =
  slug :: string
  title :: jsval
  description :: jsval
  date :: jsval
  tags :: jsval

record BlogPost = BlogPostMeta +
  published :: bool
  content :: string
  contentHtml :: string

text \<open>
  Everything the module takes from outside itself. \<open>files\<close> is indexed by the path
  relative to the blogs directory, as handed to \<open>path.join\<close>. \<open>matter\<close> is
  gray-matter: the frontmatter, an object as its type \<open>Record<string, unknown>\<close>
  says, and the body, or an exception. \<open>newDate\<close> is
  \<open>new Date(v).getTime()\<close>, with \<open>None\<close> for \<open>NaN\<close>; the constructor converts
  an object to a primitive first and throws where that conversion does. \<open>toStr\<close> is
  the string conversion of a template literal for the values that are not strings,
  which throws in the same way. \<open>unifiedProcess\<close> is the processor chain built in
  \<open>markdownToHtml\<close>, applied to a markdown text and converted with \<open>toString\<close>.
\<close>

record env =
  blogsDirectory :: string
  blogsDir :: dirnode
  files :: "string \<Rightarrow> fsnode option"
  matter :: "string \<Rightarrow> error + (frontmatter \<times> string)"
  newDate :: "jsval \<Rightarrow> error + int option"
  toStr :: "jsval \<Rightarrow> error + string"
  unifiedProcess :: "string \<Rightarrow> error + string"

subsection \<open>String helpers\<close>

text \<open>\<open>s.endsWith(suf)\<close>.\<close>

definition endsWith :: "string \<Rightarrow> string \<Rightarrow> bool" where
  "endsWith s suf = (length suf \<le> length s \<and> drop (length s - length suf) s = suf)"

text \<open>
  \<open>fileName.replace(/\.md$/, "")\<close>: without the multiline flag \<open>$\<close> matches at the
  end of the input only, so the one possible match is a final \<open>.md\<close>.
\<close>

definition stripMd :: "string \<Rightarrow> string" where
  "stripMd fileName =
     (if endsWith fileName ''.md'' then take (length fileName - 3) fileName else fileName)"

text \<open>\<open>xs.join(sep)\<close> on an array of strings.\<close>

fun joinWith :: "string \<Rightarrow> string list \<Rightarrow> string" where
  "joinWith sep [] = []"
| "joinWith sep [x] = x"
| "joinWith sep (x # y # ys) = x @ sep @ joinWith sep (y # ys)"

text \<open>A template literal \<open>${v}\<close>.\<close>

definition template :: "env \<Rightarrow> jsval \<Rightarrow> error + string" where
  "template e v = (case v of JStr s \<Rightarrow> Inr s | _ \<Rightarrow> toStr e v)"

subsection \<open>validateFrontmatter\<close>

text \<open>The three messages with a quoted field name, and the one with the rejected value.\<close>

definition missingTitle :: string where
  "missingTitle = ''Missing or invalid '' @ [CHR 0x27] @ ''title'' @ [CHR 0x27] @ '' field''"

definition missingDate :: string where
  "missingDate = ''Missing '' @ [CHR 0x27] @ ''date'' @ [CHR 0x27] @ '' field''"

definition missingDescription :: string where
  "missingDescription =
     ''Missing '' @ [CHR 0x27] @ ''description'' @ [CHR 0x27] @ '' field (recommended for SEO)''"

definition invalidDate :: "string \<Rightarrow> string" where
  "invalidDate shown = ''Invalid date format: '' @ shown"

definition titleErrors :: "frontmatter \<Rightarrow> string list" where
  "titleErrors data =
     (if \<not> truthy (field data ''title'') \<or> \<not> isString (field data ''title'')
      then [missingTitle]
      else [])"

text \<open>
  The date check: the lines it pushes, or the exception of \<open>new Date(data.date)\<close> or
  of the template literal \<open>${data.date}\<close>.
\<close>

definition dateErrors :: "env \<Rightarrow> frontmatter \<Rightarrow> error + string list" where
  "dateErrors e data =
     (if \<not> truthy (field data ''date'')
      then Inr [missingDate]
      else (case newDate e (field data ''date'') of
              Inl err \<Rightarrow> Inl err
            | Inr None \<Rightarrow>
                (case template e (field data ''date'') of
                   Inl err \<Rightarrow> Inl err
                 | Inr shown \<Rightarrow> Inr [invalidDate shown])
            | Inr (Some t) \<Rightarrow> Inr []))"

text \<open>
  The conversions that the date check makes of a value do not throw: \<open>new Date(v)\<close>
  and, where the date is invalid, \<open>${v}\<close>.
\<close>

definition dateConverts :: "env \<Rightarrow> jsval \<Rightarrow> bool" where
  "dateConverts e v =
     (case newDate e v of
        Inl err \<Rightarrow> False
      | Inr None \<Rightarrow> \<not> isl (template e v)
      | Inr (Some t) \<Rightarrow> True)"

definition descriptionWarnings :: "frontmatter \<Rightarrow> string list" where
  "descriptionWarnings data =
     (if \<not> truthy (field data ''description'')
      then [missingDescription]
      else [])"

definition warnLine :: "string \<Rightarrow> string \<Rightarrow> string" where
  "warnLine sl warning = ''[blogs/'' @ sl @ ''.md] Warning: '' @ warning"

definition validationMessage :: "string \<Rightarrow> string list \<Rightarrow> string" where
  "validationMessage sl errors =
     ''[blogs/'' @ sl @ ''.md] Validation failed:'' @ [CHR 0x0A] @ ''  - ''
       @ joinWith ([CHR 0x0A] @ ''  - '') errors"

text \<open>
  An exception of the date check leaves the function before anything is logged.
  Otherwise the warnings are logged first, then the errors are thrown together: the
  result is the log and the exception, if any.
\<close>

definition validateFrontmatter :: "env \<Rightarrow> frontmatter \<Rightarrow> string \<Rightarrow> log \<times> error option" where
  "validateFrontmatter e data sl =
     (case dateErrors e data of
        Inl err \<Rightarrow> ([], Some err)
      | Inr dateLines \<Rightarrow>
          (let errors = titleErrors data @ dateLines;
               warnings = descriptionWarnings data
           in (map (warnLine sl) warnings,
               if length errors > 0 then Some (Error (validationMessage sl errors)) else None)))"

subsection \<open>getAllSlugs\<close>

text \<open>The loop over \<open>slugs\<close> with the set \<open>seen\<close>: the first slug seen twice, if any.\<close>

fun firstDuplicate :: "string set \<Rightarrow> string list \<Rightarrow> string option" where
  "firstDuplicate seen [] = None"
| "firstDuplicate seen (s # ss) =
     (if s \<in> seen then Some s else firstDuplicate (insert s seen) ss)"

definition slugsOf :: "string list \<Rightarrow> string list" where
  "slugsOf fileNames = map stripMd (filter (\<lambda>fileName. endsWith fileName ''.md'') fileNames)"

definition getAllSlugs :: "env \<Rightarrow> log \<times> (error + string list)" where
  "getAllSlugs e =
     (case blogsDir e of
        DirMissing \<Rightarrow> ([''Blogs directory not found: '' @ blogsDirectory e], Inr [])
      | DirUnlistable \<Rightarrow> ([], Inl (FsError (blogsDirectory e)))
      | DirListing fileNames \<Rightarrow>
          (case firstDuplicate {} (slugsOf fileNames) of
             Some s \<Rightarrow> ([], Inl (Error (''Duplicate slug detected: '' @ s)))
           | None \<Rightarrow> ([], Inr (slugsOf fileNames))))"

subsection \<open>markdownToHtml and getPostBySlug\<close>

definition markdownToHtml :: "env \<Rightarrow> string \<Rightarrow> error + string" where
  "markdownToHtml e markdown = unifiedProcess e markdown"

definition getPostBySlug :: "env \<Rightarrow> string \<Rightarrow> log \<times> (error + BlogPost option)" where
  "getPostBySlug e sl =
     (case files e (sl @ ''.md'') of
        None \<Rightarrow> ([], Inr None)
      | Some Unreadable \<Rightarrow> ([], Inl (FsError (sl @ ''.md'')))
      | Some (Readable fileContents) \<Rightarrow>
          (case matter e fileContents of
             Inl err \<Rightarrow> ([], Inl err)
           | Inr (data, body) \<Rightarrow>
               (case validateFrontmatter e data sl of
                  (lg, Some err) \<Rightarrow> (lg, Inl err)
                | (lg, None) \<Rightarrow>
                    (case markdownToHtml e body of
                       Inl err \<Rightarrow> (lg, Inl err)
                     | Inr html \<Rightarrow>
                         (lg, Inr (Some \<lparr> slug = sl,
                                          title = field data ''title'',
                                          description = field data ''description'',
                                          date = field data ''date'',
                                          tags = field data ''tags'',
                                          published = (field data ''published'' \<noteq> JBool False),
                                          content = body,
                                          contentHtml = html \<rparr>))))))"

subsection \<open>getAllPosts and getAllPostsMeta\<close>

text \<open>
  The \<open>for\<close> loop of \<open>getAllPosts\<close>: \<open>posts\<close> is the array built so far; the first
  exception ends the loop.
\<close>

fun loadPosts :: "env \<Rightarrow> string list \<Rightarrow> BlogPost list \<Rightarrow> log \<times> (error + BlogPost list)" where
  "loadPosts e [] posts = ([], Inr posts)"
| "loadPosts e (s # ss) posts =
     (case getPostBySlug e s of
        (lg, Inl err) \<Rightarrow> (lg, Inl err)
      | (lg, Inr None) \<Rightarrow>
          (case loadPosts e ss posts of (lg', r) \<Rightarrow> (lg @ lg', r))
      | (lg, Inr (Some post)) \<Rightarrow>
          (case loadPosts e ss (if published post \<noteq> False then posts @ [post] else posts)
           of (lg', r) \<Rightarrow> (lg @ lg', r)))"

text \<open>
  The comparator \<open>(a, b) => new Date(b.date).getTime() - new Date(a.date).getTime()\<close>:
  \<open>dateA\<close> is constructed first, then \<open>dateB\<close>, and either constructor may throw.
  Only the sign of the result matters to the sort; a \<open>NaN\<close> result counts as \<open>+0\<close>
  there.
\<close>

definition compareDates :: "env \<Rightarrow> BlogPost \<Rightarrow> BlogPost \<Rightarrow> error + int" where
  "compareDates e a b =
     (case newDate e (date a) of
        Inl err \<Rightarrow> Inl err
      | Inr dateA \<Rightarrow>
          (case newDate e (date b) of
             Inl err \<Rightarrow> Inl err
           | Inr dateB \<Rightarrow>
               Inr (case (dateA, dateB) of
                      (Some timeA, Some timeB) \<Rightarrow> timeB - timeA
                    | _ \<Rightarrow> 0)))"

text \<open>
  \<open>Array.prototype.sort\<close> is stable: an element goes behind every element that the
  comparator does not put after it. The elements are inserted from left to right; an
  exception of the comparator ends the sort.
\<close>

fun insertSorted :: "('a \<Rightarrow> 'a \<Rightarrow> error + int) \<Rightarrow> 'a \<Rightarrow> 'a list \<Rightarrow> error + 'a list" where
  "insertSorted cmp x [] = Inr [x]"
| "insertSorted cmp x (y # ys) =
     (case cmp y x of
        Inl err \<Rightarrow> Inl err
      | Inr c \<Rightarrow>
          if c \<le> 0
          then (case insertSorted cmp x ys of
                  Inl err \<Rightarrow> Inl err
                | Inr zs \<Rightarrow> Inr (y # zs))
          else Inr (x # y # ys))"

fun sortInto :: "('a \<Rightarrow> 'a \<Rightarrow> error + int) \<Rightarrow> 'a list \<Rightarrow> 'a list \<Rightarrow> error + 'a list" where
  "sortInto cmp acc [] = Inr acc"
| "sortInto cmp acc (x # xs) =
     (case insertSorted cmp x acc of
        Inl err \<Rightarrow> Inl err
      | Inr acc' \<Rightarrow> sortInto cmp acc' xs)"

definition sortWith :: "('a \<Rightarrow> 'a \<Rightarrow> error + int) \<Rightarrow> 'a list \<Rightarrow> error + 'a list" where
  "sortWith cmp xs = sortInto cmp [] xs"

definition getAllPosts :: "env \<Rightarrow> log \<times> (error + BlogPost list)" where
  "getAllPosts e =
     (case getAllSlugs e of
        (lg, Inl err) \<Rightarrow> (lg, Inl err)
      | (lg, Inr slugs) \<Rightarrow>
          (case loadPosts e slugs [] of
             (lg', Inl err) \<Rightarrow> (lg @ lg', Inl err)
           | (lg', Inr posts) \<Rightarrow> (lg @ lg', sortWith (compareDates e) posts)))"

definition toMeta :: "BlogPost \<Rightarrow> BlogPostMeta" where
  "toMeta p = \<lparr> slug = slug p, title = title p, description = description p,
                date = date p, tags = tags p \<rparr>"

definition getAllPostsMeta :: "env \<Rightarrow> log \<times> (error + BlogPostMeta list)" where
  "getAllPostsMeta e =
     (case getAllPosts e of
        (lg, Inl err) \<Rightarrow> (lg, Inl err)
      | (lg, Inr posts) \<Rightarrow> (lg, Inr (map toMeta posts)))"

text \<open>
  What one round of the loop of \<open>getAllPosts\<close> appends to \<open>posts\<close> when the load
  of the slug does not throw: the post if it is published, nothing otherwise.
\<close>

definition pushed :: "env \<Rightarrow> string \<Rightarrow> BlogPost list" where
  "pushed e s = (case snd (getPostBySlug e s) of
                   Inr (Some post) \<Rightarrow> if published post then [post] else []
                 | _ \<Rightarrow> [])"

subsection \<open>Sample content stores\<close>

text \<open>
  Concrete environments for the examples. A store is a list of entries of the blogs
  directory: the file name, the raw file contents, and what gray-matter makes of
  them. The date constructor of the samples knows three ISO dates (by their UTC time
  value) and copies \<open>Date\<close> objects. An object with an own property \<open>toString\<close>
  cannot be converted to a primitive (the property is a value and not a function, and
  the inherited \<open>valueOf\<close> returns the object): the constructor and the template
  literal throw a \<open>TypeError\<close> on it. Every other value is an invalid date and is
  shown as \<open>[object Object]\<close>. The sample renderer wraps the body in one paragraph.
\<close>

definition sampleDates :: "(jsval \<times> int) list" where
  "sampleDates =
     [(JStr ''2026-02-01'', 1769904000000),
      (JStr ''2025-11-15'', 1763164800000),
      (JStr ''2024-06-30'', 1719705600000)]"

definition notPrimitive :: error where
  "notPrimitive = TypeError ''Cannot convert object to primitive value''"

definition sampleNewDate :: "jsval \<Rightarrow> error + int option" where
  "sampleNewDate v =
     (case v of
        JDate t \<Rightarrow> Inr t
      | JObj props \<Rightarrow> if ''toString'' \<in> set (map fst props) then Inl notPrimitive else Inr None
      | _ \<Rightarrow> Inr (map_of sampleDates v))"

definition sampleToStr :: "jsval \<Rightarrow> error + string" where
  "sampleToStr v =
     (case v of
        JObj props \<Rightarrow>
          if ''toString'' \<in> set (map fst props) then Inl notPrimitive
          else Inr ''[object Object]''
      | _ \<Rightarrow> Inr ''[object Object]'')"

definition storeEnv :: "dirnode \<Rightarrow> (string \<times> string \<times> frontmatter \<times> string) list \<Rightarrow> env" where
  "storeEnv dir entries =
     \<lparr> blogsDirectory = ''/app/blogs'',
       blogsDir = dir,
       files = map_of (map (\<lambda>(name, raw, parsed). (name, Readable raw)) entries),
       matter = (\<lambda>raw. case map_of (map (\<lambda>(name, raw, parsed). (raw, parsed)) entries) raw of
                          None \<Rightarrow> Inl (LibError ''YAMLException'')
                        | Some parsed \<Rightarrow> Inr parsed),
       newDate = sampleNewDate,
       toStr = sampleToStr,
       unifiedProcess = (\<lambda>markdown. Inr (''<p>'' @ markdown @ ''</p>'')) \<rparr>"

definition helloData :: frontmatter where
  "helloData =
     [(''title'', JStr ''Hello World''), (''date'', JStr ''2024-06-30''),
      (''description'', JStr ''A first post'')]"

definition helloEntry :: "string \<times> string \<times> frontmatter \<times> string" where
  "helloEntry = (''hello-world.md'', ''raw:hello-world'', helloData, ''Hello.'')"

definition httpData :: frontmatter where
  "httpData =
     [(''title'', JStr ''From Bytes to Bytes''), (''date'', JStr ''2026-02-01''),
      (''description'', JStr ''A raw HTTP server in Rust''),
      (''tags'', JArr [JStr ''rust'', JStr ''http''])]"

definition httpEntry :: "string \<times> string \<times> frontmatter \<times> string" where
  "httpEntry = (''raw-http-server.md'', ''raw:raw-http-server'', httpData, ''TCP.'')"

definition draftData :: frontmatter where
  "draftData =
     [(''title'', JStr ''Draft Notes''), (''date'', JStr ''2025-11-15''),
      (''published'', JBool False)]"

definition draftEntry :: "string \<times> string \<times> frontmatter \<times> string" where
  "draftEntry = (''draft-notes.md'', ''raw:draft-notes'', draftData, ''Later.'')"

text \<open>A draft (\<open>published: false\<close>) without a title.\<close>

definition untitledData :: frontmatter where
  "untitledData = [(''date'', JStr ''2025-11-15''), (''published'', JBool False)]"

definition untitledDraftEntry :: "string \<times> string \<times> frontmatter \<times> string" where
  "untitledDraftEntry = (''untitled.md'', ''raw:untitled'', untitledData, ''Nothing yet.'')"

text \<open>Frontmatter \<open>title: ""\<close> and \<open>date: ""\<close>.\<close>

definition emptyData :: frontmatter where
  "emptyData =
     [(''title'', JStr []), (''date'', JStr []), (''description'', JStr ''Empty fields'')]"

definition emptyTitleEntry :: "string \<times> string \<times> frontmatter \<times> string" where
  "emptyTitleEntry = (''empty.md'', ''raw:empty'', emptyData, ''Body.'')"

text \<open>No date at all.\<close>

definition undatedData :: frontmatter where
  "undatedData = [(''title'', JStr ''Undated''), (''description'', JStr ''No date'')]"

definition undatedEntry :: "string \<times> string \<times> frontmatter \<times> string" where
  "undatedEntry = (''undated.md'', ''raw:undated'', undatedData, ''Body.'')"

text \<open>No title, and a date \<open>{toString: 1}\<close>.\<close>

definition objectDateData :: frontmatter where
  "objectDateData =
     [(''date'', JObj [(''toString'', JNum (Finite 1))]), (''description'', JStr ''Odd date'')]"

definition objectDateEntry :: "string \<times> string \<times> frontmatter \<times> string" where
  "objectDateEntry = (''object-date.md'', ''raw:object-date'', objectDateData, ''Body.'')"

text \<open>Frontmatter \<open>title: ""\<close>, and a date \<open>{toString: 1}\<close>.\<close>

definition emptyTitleObjectData :: frontmatter where
  "emptyTitleObjectData =
     [(''title'', JStr []), (''date'', JObj [(''toString'', JNum (Finite 1))]),
      (''description'', JStr ''Odd date, empty title'')]"

definition emptyTitleObjectEntry :: "string \<times> string \<times> frontmatter \<times> string" where
  "emptyTitleObjectEntry =
     (''empty-object.md'', ''raw:empty-object'', emptyTitleObjectData, ''Body.'')"

text \<open>A date that does not parse.\<close>

definition badDateData :: frontmatter where
  "badDateData =
     [(''title'', JStr ''Bad Date''), (''date'', JStr ''someday''),
      (''description'', JStr ''When?'')]"

definition badDateEntry :: "string \<times> string \<times> frontmatter \<times> string" where
  "badDateEntry = (''bad-date.md'', ''raw:bad-date'', badDateData, ''Body.'')"

definition sampleEnv :: env where
  "sampleEnv =
     storeEnv (DirListing [''hello-world.md'', ''raw-http-server.md'', ''draft-notes.md'',
                           ''notes.txt''])
       [helloEntry, httpEntry, draftEntry]"

definition brokenEnv :: env where
  "brokenEnv =
     storeEnv (DirListing [''hello-world.md'', ''untitled.md'', ''raw-http-server.md'',
                           ''empty.md'', ''undated.md'', ''bad-date.md'', ''object-date.md'',
                           ''empty-object.md''])
       [helloEntry, untitledDraftEntry, httpEntry, emptyTitleEntry, undatedEntry, badDateEntry,
        objectDateEntry, emptyTitleObjectEntry]"

text \<open>A store whose one invalid post is a draft.\<close>

definition untitledEnv :: env where
  "untitledEnv =
     storeEnv (DirListing [''hello-world.md'', ''untitled.md'', ''raw-http-server.md''])
       [helloEntry, untitledDraftEntry, httpEntry]"

text \<open>Names that differ in case or in the spelling of the extension only.\<close>

definition caseEnv :: env where
  "caseEnv = storeEnv (DirListing [''intro.md'', ''Intro.md'', ''intro.MD'']) []"

text \<open>A listing that names the same file twice.\<close>

definition repeatedEnv :: env where
  "repeatedEnv = storeEnv (DirListing [''intro.md'', ''hello-world.md'', ''intro.md'']) [helloEntry]"

text \<open>A store with a directory named \<open>archive.md\<close> next to one post.\<close>

definition archiveEnv :: env where
  "archiveEnv =
     (storeEnv (DirListing [''hello-world.md'', ''archive.md'']) [helloEntry])
       \<lparr> files := (map_of [(''hello-world.md'', Readable ''raw:hello-world''),
                             (''archive.md'', Unreadable)]) \<rparr>"

definition emptyEnv :: env where
  "emptyEnv = storeEnv DirMissing []"

text \<open>The posts that the sample store holds.\<close>

definition helloPost :: BlogPost where
  "helloPost =
     \<lparr> slug = ''hello-world'', title = JStr ''Hello World'',
       description = JStr ''A first post'', date = JStr ''2024-06-30'',
       tags = JUndefined, published = True, content = ''Hello.'',
       contentHtml = ''<p>Hello.</p>'' \<rparr>"

definition httpPost :: BlogPost where
  "httpPost =
     \<lparr> slug = ''raw-http-server'', title = JStr ''From Bytes to Bytes'',
       description = JStr ''A raw HTTP server in Rust'', date = JStr ''2026-02-01'',
       tags = JArr [JStr ''rust'', JStr ''http''], published = True, content = ''TCP.'',
       contentHtml = ''<p>TCP.</p>'' \<rparr>"

definition draftPost :: BlogPost where
  "draftPost =
     \<lparr> slug = ''draft-notes'', title = JStr ''Draft Notes'',
       description = JUndefined, date = JStr ''2025-11-15'',
       tags = JUndefined, published = False, content = ''Later.'',
       contentHtml = ''<p>Later.</p>'' \<rparr>"

section \<open>Properties\<close>

subsection \<open>Slug enumeration\<close>

lemma firstDuplicate_None:
  "firstDuplicate seen xs = None \<longleftrightarrow> distinct xs \<and> set xs \<inter> seen = {}"
  by (induction xs arbitrary: seen) auto

lemma firstDuplicate_Some_mem: "firstDuplicate seen xs = Some s \<Longrightarrow> s \<in> set xs"
  by (induction xs arbitrary: seen) (auto split: if_splits)

lemma endsWith_append: "endsWith s suf \<longleftrightarrow> (\<exists>pre. s = pre @ suf)"
proof
  assume "endsWith s suf"
  then have "s = take (length s - length suf) s @ suf"
    by (metis append_take_drop_id endsWith_def)
  then show "\<exists>pre. s = pre @ suf" ..
next
  assume "\<exists>pre. s = pre @ suf"
  then show "endsWith s suf" by (auto simp: endsWith_def)
qed

lemma stripMd_append: "stripMd (pre @ ''.md'') = pre"
  by (simp add: stripMd_def endsWith_def)

lemma stripMd_inj:
  "endsWith a ''.md'' \<Longrightarrow> endsWith b ''.md'' \<Longrightarrow> stripMd a = stripMd b \<Longrightarrow> a = b"
  by (auto simp: endsWith_append stripMd_append)

lemma distinct_slugsOf:
  "distinct (slugsOf fileNames) = distinct (filter (\<lambda>f. endsWith f ''.md'') fileNames)"
proof -
  have "inj_on stripMd (set (filter (\<lambda>f. endsWith f ''.md'') fileNames))"
    by (rule inj_onI) (simp add: stripMd_inj)
  then show ?thesis
    by (simp add: slugsOf_def distinct_map)
qed

lemma getAllSlugs_listing:
  "blogsDir e = DirListing fileNames \<Longrightarrow>
   getAllSlugs e =
     (case firstDuplicate {} (slugsOf fileNames) of
        Some s \<Rightarrow> ([], Inl (Error (''Duplicate slug detected: '' @ s)))
      | None \<Rightarrow> ([], Inr (slugsOf fileNames)))"
  by (simp add: getAllSlugs_def)

subsection \<open>Validation and the load of one post\<close>

lemma getPostBySlug_file:
  assumes "files e (sl @ ''.md'') = Some (Readable raw)" and "matter e raw = Inr (data, body)"
  shows "getPostBySlug e sl =
     (case validateFrontmatter e data sl of
        (lg, Some err) \<Rightarrow> (lg, Inl err)
      | (lg, None) \<Rightarrow>
          (case markdownToHtml e body of
             Inl err \<Rightarrow> (lg, Inl err)
           | Inr html \<Rightarrow>
               (lg, Inr (Some \<lparr> slug = sl,
                                title = field data ''title'',
                                description = field data ''description'',
                                date = field data ''date'',
                                tags = field data ''tags'',
                                published = (field data ''published'' \<noteq> JBool False),
                                content = body,
                                contentHtml = html \<rparr>))))"
  using assms by (simp add: getPostBySlug_def)

lemma getPostBySlug_SomeD:
  assumes "getPostBySlug e sl = (lg, Inr (Some p))"
  shows "\<exists>raw data body html.
           files e (sl @ ''.md'') = Some (Readable raw)
         \<and> matter e raw = Inr (data, body)
         \<and> validateFrontmatter e data sl = (lg, None)
         \<and> markdownToHtml e body = Inr html
         \<and> p = \<lparr> slug = sl, title = field data ''title'',
                   description = field data ''description'',
                   date = field data ''date'', tags = field data ''tags'',
                   published = (field data ''published'' \<noteq> JBool False),
                   content = body, contentHtml = html \<rparr>"
  using assms
  by (auto simp: getPostBySlug_def split: option.splits fsnode.splits sum.splits prod.splits)

lemma getPostBySlug_null_only_if_absent:
  "snd (getPostBySlug e sl) = Inr None \<Longrightarrow> files e (sl @ ''.md'') = None"
  by (auto simp: getPostBySlug_def split: option.splits fsnode.splits sum.splits prod.splits)

lemma validateFrontmatter_NoneD:
  "validateFrontmatter e data sl = (lg, None) \<Longrightarrow>
     titleErrors data = [] \<and> dateErrors e data = Inr []"
  by (auto simp: validateFrontmatter_def Let_def split: sum.splits if_splits)

lemma dateErrors_NilD:
  "dateErrors e data = Inr [] \<Longrightarrow>
     truthy (field data ''date'') \<and> (\<exists>t. newDate e (field data ''date'') = Inr (Some t))"
  by (auto simp: dateErrors_def split: if_splits sum.splits option.splits)

lemma titleErrors_NilD:
  "titleErrors data = [] \<Longrightarrow> truthy (field data ''title'') \<and> isString (field data ''title'')"
  by (auto simp: titleErrors_def split: if_splits)

lemma getPostBySlug_valid_date:
  assumes "getPostBySlug e sl = (lg, Inr (Some p))"
  shows "\<exists>t. newDate e (date p) = Inr (Some t)"
proof -
  from getPostBySlug_SomeD [OF assms] obtain raw data body html where
    v: "validateFrontmatter e data sl = (lg, None)" and
    p: "p = \<lparr> slug = sl, title = field data ''title'',
                   description = field data ''description'',
                   date = field data ''date'', tags = field data ''tags'',
                   published = (field data ''published'' \<noteq> JBool False),
                   content = body, contentHtml = html \<rparr>"
    by blast
  from v have "dateErrors e data = Inr []" by (simp add: validateFrontmatter_NoneD)
  then have "\<exists>t. newDate e (field data ''date'') = Inr (Some t)" by (simp add: dateErrors_NilD)
  with p show ?thesis by simp
qed

lemma getPostBySlug_slug:
  "getPostBySlug e sl = (lg, Inr (Some p)) \<Longrightarrow> slug p = sl"
  by (drule getPostBySlug_SomeD) auto

lemma validateFrontmatter_error:
  assumes "dateErrors e data = Inr dateLines" and "m \<in> set (titleErrors data @ dateLines)"
  shows "validateFrontmatter e data sl =
           (map (warnLine sl) (descriptionWarnings data),
            Some (Error (validationMessage sl (titleErrors data @ dateLines))))"
proof -
  from assms(2) have "length (titleErrors data @ dateLines) > 0"
    by (cases "titleErrors data @ dateLines") auto
  then show ?thesis by (simp add: validateFrontmatter_def assms(1) Let_def)
qed

lemma validateFrontmatter_ok:
  assumes "titleErrors data = []" and "dateErrors e data = Inr []"
  shows "validateFrontmatter e data sl = (map (warnLine sl) (descriptionWarnings data), None)"
  using assms by (simp add: validateFrontmatter_def Let_def)

lemma validateFrontmatter_throws:
  assumes "truthy (field data ''date'')" and "newDate e (field data ''date'') = Inl err"
  shows "validateFrontmatter e data sl = ([], Some err)"
  using assms by (simp add: validateFrontmatter_def dateErrors_def)

lemma dateErrors_falsy:
  "\<not> truthy (field data ''date'') \<Longrightarrow> dateErrors e data = Inr [missingDate]"
  by (simp add: dateErrors_def)

lemma dateErrors_valid:
  "truthy (field data ''date'') \<Longrightarrow> newDate e (field data ''date'') = Inr (Some t) \<Longrightarrow>
     dateErrors e data = Inr []"
  by (simp add: dateErrors_def)

lemma dateErrors_cong:
  assumes "field data' ''date'' = field data ''date''"
  shows "dateErrors e data' = dateErrors e data"
  unfolding dateErrors_def assms by (rule refl)

lemma dateErrors_converts:
  assumes "truthy (field data ''date'') \<longrightarrow> dateConverts e (field data ''date'')"
  shows "\<exists>dateLines. dateErrors e data = Inr dateLines"
  using assms
  by (auto simp: dateErrors_def dateConverts_def split: sum.splits option.splits)

lemma validateFrontmatter_cong:
  assumes "titleErrors data' = titleErrors data"
      and "dateErrors e data' = dateErrors e data"
      and "descriptionWarnings data' = descriptionWarnings data"
  shows "validateFrontmatter e data' sl = validateFrontmatter e data sl"
  using assms by (simp add: validateFrontmatter_def split: sum.splits)

text \<open>Every collected error line occurs in the message of the exception.\<close>

lemma sublist_joinWith: "x \<in> set xs \<Longrightarrow> sublist x (joinWith sep xs)"
proof (induction sep xs rule: joinWith.induct)
  case (1 sep)
  then show ?case by simp
next
  case (2 sep y)
  then show ?case by simp
next
  case (3 sep y z zs)
  show ?case
  proof (cases "x = y")
    case True
    then show ?thesis by simp
  next
    case False
    with 3 have "sublist x (joinWith sep (z # zs))" by simp
    then obtain ps ss where "joinWith sep (z # zs) = ps @ x @ ss"
      by (auto simp: sublist_def)
    then have "joinWith sep (y # z # zs) = (y @ sep @ ps) @ x @ ss" by simp
    then show ?thesis unfolding sublist_def by blast
  qed
qed

lemma sublist_validationMessage:
  "m \<in> set errors \<Longrightarrow> sublist m (validationMessage sl errors)"
proof -
  assume "m \<in> set errors"
  then have "sublist m (joinWith ([CHR 0x0A] @ ''  - '') errors)" by (rule sublist_joinWith)
  then obtain ps ss where "joinWith ([CHR 0x0A] @ ''  - '') errors = ps @ m @ ss"
    by (auto simp: sublist_def)
  then have "validationMessage sl errors =
      (''[blogs/'' @ sl @ ''.md] Validation failed:'' @ [CHR 0x0A] @ ''  - '' @ ps) @ m @ ss"
    by (simp add: validationMessage_def)
  then show ?thesis unfolding sublist_def by blast
qed

lemma validation_failed_in_message:
  "sublist ''Validation failed'' (validationMessage sl errors)"
proof -
  have "validationMessage sl errors =
      (''[blogs/'' @ sl @ ''.md] '') @ ''Validation failed'' @
      ('':'' @ [CHR 0x0A] @ ''  - '' @ joinWith ([CHR 0x0A] @ ''  - '') errors)"
    by (simp add: validationMessage_def)
  then show ?thesis unfolding sublist_def by blast
qed

lemma getPostBySlug_validation_error:
  assumes "files e (sl @ ''.md'') = Some (Readable raw)" and "matter e raw = Inr (data, body)"
      and "dateErrors e data = Inr dateLines"
      and "m \<in> set (titleErrors data @ dateLines)"
  shows "\<exists>msg. snd (getPostBySlug e sl) = Inl (Error msg)
             \<and> sublist ''Validation failed'' msg \<and> sublist m msg"
proof -
  let ?msg = "validationMessage sl (titleErrors data @ dateLines)"
  have "snd (getPostBySlug e sl) = Inl (Error ?msg)"
    by (simp add: getPostBySlug_file [OF assms(1,2)] validateFrontmatter_error [OF assms(3,4)])
  moreover have "sublist ''Validation failed'' ?msg" by (rule validation_failed_in_message)
  moreover have "sublist m ?msg" using assms(4) by (rule sublist_validationMessage)
  ultimately show ?thesis by blast
qed

subsection \<open>The loop of getAllPosts\<close>

lemma loadPosts_Inr:
  "loadPosts e ss acc = (lg, Inr ps) \<Longrightarrow>
     ps = acc @ concat (map (pushed e) ss) \<and> (\<forall>s \<in> set ss. \<not> isl (snd (getPostBySlug e s)))"
proof (induction ss arbitrary: acc lg)
  case Nil
  then show ?case by simp
next
  case (Cons s ss)
  obtain l r where g: "getPostBySlug e s = (l, r)" by (cases "getPostBySlug e s")
  show ?case
  proof (cases r)
    case (Inl err)
    with Cons.prems g show ?thesis by simp
  next
    case (Inr res)
    show ?thesis
    proof (cases res)
      case None
      with Cons.prems g Inr obtain l' where "loadPosts e ss acc = (l', Inr ps)"
        by (auto split: prod.splits)
      from Cons.IH [OF this] g Inr None show ?thesis by (simp add: pushed_def)
    next
      case (Some post)
      with Cons.prems g Inr obtain l' where
        "loadPosts e ss (if published post \<noteq> False then acc @ [post] else acc) = (l', Inr ps)"
        by (auto split: prod.splits)
      from Cons.IH [OF this] g Inr Some show ?thesis by (simp add: pushed_def)
    qed
  qed
qed

lemma snd_loadPosts_Cons:
  "snd (loadPosts e (s # ss) acc) =
     (case snd (getPostBySlug e s) of
        Inl err \<Rightarrow> Inl err
      | Inr None \<Rightarrow> snd (loadPosts e ss acc)
      | Inr (Some post) \<Rightarrow> snd (loadPosts e ss (if published post then acc @ [post] else acc)))"
  by (cases "getPostBySlug e s") (auto split: sum.splits option.splits prod.splits)

lemma loadPosts_fails:
  "s \<in> set ss \<Longrightarrow> snd (getPostBySlug e s) = Inl err \<Longrightarrow> isl (snd (loadPosts e ss acc))"
proof (induction ss arbitrary: acc)
  case Nil
  then show ?case by simp
next
  case (Cons a ss)
  show ?case
  proof (cases "snd (getPostBySlug e a)")
    case (Inl x)
    then show ?thesis by (simp add: snd_loadPosts_Cons del: loadPosts.simps)
  next
    case (Inr res)
    with Cons.prems have "s \<in> set ss" by auto
    then have "\<And>acc'. isl (snd (loadPosts e ss acc'))"
      using Cons.IH Cons.prems(2) by blast
    with Inr show ?thesis
      by (simp add: snd_loadPosts_Cons del: loadPosts.simps split: option.splits)
  qed
qed

lemma loadPosts_only_failure:
  "s \<in> set ss \<Longrightarrow> snd (getPostBySlug e s) = Inl err \<Longrightarrow>
   \<forall>t \<in> set ss. t \<noteq> s \<longrightarrow> \<not> isl (snd (getPostBySlug e t)) \<Longrightarrow>
   snd (loadPosts e ss acc) = Inl err"
proof (induction ss arbitrary: acc)
  case Nil
  then show ?case by simp
next
  case (Cons a ss)
  show ?case
  proof (cases "a = s")
    case True
    with Cons.prems(2) show ?thesis by (simp add: snd_loadPosts_Cons del: loadPosts.simps)
  next
    case False
    with Cons.prems have ok: "\<not> isl (snd (getPostBySlug e a))" and mem: "s \<in> set ss"
      and rest: "\<forall>t \<in> set ss. t \<noteq> s \<longrightarrow> \<not> isl (snd (getPostBySlug e t))"
      by auto
    from ok obtain res where r: "snd (getPostBySlug e a) = Inr res"
      by (cases "snd (getPostBySlug e a)") auto
    have "\<And>acc'. snd (loadPosts e ss acc') = Inl err"
      using Cons.IH [OF mem Cons.prems(2) rest] .
    with r show ?thesis
      by (simp add: snd_loadPosts_Cons del: loadPosts.simps split: option.splits)
  qed
qed

lemma pushed_valid_date: "p \<in> set (pushed e s) \<Longrightarrow> \<exists>t. newDate e (date p) = Inr (Some t)"
proof -
  assume "p \<in> set (pushed e s)"
  then have "snd (getPostBySlug e s) = Inr (Some p)"
    by (auto simp: pushed_def split: sum.splits option.splits if_splits)
  then obtain lg where "getPostBySlug e s = (lg, Inr (Some p))"
    by (cases "getPostBySlug e s") auto
  then show ?thesis by (rule getPostBySlug_valid_date)
qed

lemma pushed_slug: "p \<in> set (pushed e t) \<Longrightarrow> slug p = t"
proof -
  assume "p \<in> set (pushed e t)"
  then have "snd (getPostBySlug e t) = Inr (Some p)"
    by (auto simp: pushed_def split: sum.splits option.splits if_splits)
  then obtain lg where "getPostBySlug e t = (lg, Inr (Some p))"
    by (cases "getPostBySlug e t") auto
  then show ?thesis by (rule getPostBySlug_slug)
qed

subsection \<open>The sort\<close>

lemma sortWith_Nil: "sortWith cmp [] = Inr []"
  by (simp add: sortWith_def)

text \<open>A sort that returns has rearranged its input.\<close>

lemma insertSorted_Inr:
  "insertSorted cmp x ys = Inr zs \<Longrightarrow> set zs = insert x (set ys) \<and> length zs = Suc (length ys)"
proof (induction ys arbitrary: zs)
  case Nil
  then show ?case by auto
next
  case (Cons y ys)
  show ?case
  proof (cases "cmp y x")
    case (Inl err)
    with Cons.prems show ?thesis by simp
  next
    case (Inr c)
    show ?thesis
    proof (cases "c \<le> 0")
      case True
      with Cons.prems Inr obtain zs' where
        "insertSorted cmp x ys = Inr zs'" "zs = y # zs'"
        by (auto split: sum.splits)
      with Cons.IH [of zs'] show ?thesis by auto
    next
      case False
      with Cons.prems Inr show ?thesis by auto
    qed
  qed
qed

lemma sortInto_Inr:
  "sortInto cmp acc xs = Inr ys \<Longrightarrow>
     set ys = set acc \<union> set xs \<and> length ys = length acc + length xs"
proof (induction xs arbitrary: acc)
  case Nil
  then show ?case by simp
next
  case (Cons x xs)
  then obtain acc' where step: "insertSorted cmp x acc = Inr acc'"
    and rest: "sortInto cmp acc' xs = Inr ys"
    by (auto split: sum.splits)
  from Cons.IH [OF rest] insertSorted_Inr [OF step] show ?case by auto
qed

lemma sortWith_Inr:
  "sortWith cmp xs = Inr ys \<Longrightarrow> set ys = set xs \<and> length ys = length xs"
  unfolding sortWith_def by (drule sortInto_Inr) simp

text \<open>
  Where the comparator returns the difference of a key, as it does on posts with valid
  dates, the sort returns, and its result is in descending order of the key.
\<close>

lemma insertSorted_keyed:
  assumes "\<forall>a \<in> insert x (set ys). \<forall>b \<in> insert x (set ys). cmp a b = Inr (k b - k a)"
      and "sorted_wrt (\<lambda>a b. k b \<le> k a) ys"
  shows "\<exists>zs. insertSorted cmp x ys = Inr zs \<and> sorted_wrt (\<lambda>a b. k b \<le> k a) zs"
  using assms
proof (induction ys)
  case Nil
  then show ?case by simp
next
  case (Cons y ys)
  have cmp: "cmp y x = Inr (k x - k y)" using Cons.prems(1) by simp
  show ?case
  proof (cases "k x - k y \<le> 0")
    case True
    from Cons.IH Cons.prems obtain zs where
      zs: "insertSorted cmp x ys = Inr zs" and sorted: "sorted_wrt (\<lambda>a b. k b \<le> k a) zs"
      by auto
    from insertSorted_Inr [OF zs] have "set zs = insert x (set ys)" by simp
    then have "\<forall>z \<in> set zs. k z \<le> k y"
      using True Cons.prems(2) by auto
    with zs sorted cmp True show ?thesis by simp
  next
    case False
    then have "k y < k x" by simp
    moreover have "\<forall>z \<in> set ys. k z \<le> k y" using Cons.prems(2) by simp
    ultimately have "\<forall>z \<in> set (y # ys). k z \<le> k x" by auto
    then show ?thesis using False cmp Cons.prems(2) by simp
  qed
qed

lemma sortInto_keyed:
  assumes "\<forall>a \<in> set acc \<union> set xs. \<forall>b \<in> set acc \<union> set xs. cmp a b = Inr (k b - k a)"
      and "sorted_wrt (\<lambda>a b. k b \<le> k a) acc"
  shows "\<exists>ys. sortInto cmp acc xs = Inr ys \<and> sorted_wrt (\<lambda>a b. k b \<le> k a) ys"
  using assms
proof (induction xs arbitrary: acc)
  case Nil
  then show ?case by simp
next
  case (Cons x xs)
  have "\<exists>zs. insertSorted cmp x acc = Inr zs \<and> sorted_wrt (\<lambda>a b. k b \<le> k a) zs"
    using Cons.prems by (intro insertSorted_keyed) auto
  then obtain zs where zs: "insertSorted cmp x acc = Inr zs"
    and sorted: "sorted_wrt (\<lambda>a b. k b \<le> k a) zs" by blast
  from insertSorted_Inr [OF zs] have "set zs = insert x (set acc)" by simp
  then have "\<forall>a \<in> set zs \<union> set xs. \<forall>b \<in> set zs \<union> set xs. cmp a b = Inr (k b - k a)"
    using Cons.prems(1) by auto
  from Cons.IH [OF this sorted] zs show ?case by simp
qed

lemma sortWith_keyed:
  assumes "\<forall>a \<in> set xs. \<forall>b \<in> set xs. cmp a b = Inr (k b - k a)"
  shows "\<exists>ys. sortWith cmp xs = Inr ys \<and> sorted_wrt (\<lambda>a b. k b \<le> k a) ys"
  unfolding sortWith_def using assms by (intro sortInto_keyed) auto

lemma compareDates_valid:
  "newDate e (date a) = Inr (Some timeA) \<Longrightarrow> newDate e (date b) = Inr (Some timeB) \<Longrightarrow>
     compareDates e a b = Inr (timeB - timeA)"
  by (simp add: compareDates_def)

text \<open>The posts that the loop collects sort without an exception.\<close>

lemma sort_loaded:
  "\<exists>posts. sortWith (compareDates e) (concat (map (pushed e) slugs)) = Inr posts
     \<and> sorted_wrt (\<lambda>a b. the (projr (newDate e (date b))) \<le> the (projr (newDate e (date a))))
          posts"
proof (rule sortWith_keyed, intro ballI)
  fix a b
  assume "a \<in> set (concat (map (pushed e) slugs))" "b \<in> set (concat (map (pushed e) slugs))"
  then obtain timeA timeB where
    "newDate e (date a) = Inr (Some timeA)" "newDate e (date b) = Inr (Some timeB)"
    by (auto dest!: pushed_valid_date)
  then show "compareDates e a b
               = Inr (the (projr (newDate e (date b))) - the (projr (newDate e (date a))))"
    by (simp add: compareDates_valid)
qed

subsection \<open>The two listings\<close>

lemma getAllPosts_slugs_fail:
  "getAllSlugs e = (lg, Inl err) \<Longrightarrow> getAllPosts e = (lg, Inl err)"
  by (simp add: getAllPosts_def)

lemma getAllPostsMeta_fail:
  "getAllPosts e = (lg, Inl err) \<Longrightarrow> getAllPostsMeta e = (lg, Inl err)"
  by (simp add: getAllPostsMeta_def)

lemma getAllPostsMeta_ok:
  "getAllPosts e = (lg, Inr posts) \<Longrightarrow> getAllPostsMeta e = (lg, Inr (map toMeta posts))"
  by (simp add: getAllPostsMeta_def)

lemma snd_getAllPosts:
  "getAllSlugs e = (lg, Inr slugs) \<Longrightarrow>
   snd (getAllPosts e) =
     (case snd (loadPosts e slugs []) of
        Inl err \<Rightarrow> Inl err
      | Inr posts \<Rightarrow> sortWith (compareDates e) posts)"
  by (cases "loadPosts e slugs []") (auto simp: getAllPosts_def split: sum.splits)

lemma snd_getAllPostsMeta:
  "snd (getAllPostsMeta e) =
     (case snd (getAllPosts e) of Inl err \<Rightarrow> Inl err | Inr posts \<Rightarrow> Inr (map toMeta posts))"
  by (cases "getAllPosts e") (auto simp: getAllPostsMeta_def split: sum.splits)

lemma getAllPosts_InrD:
  assumes "getAllPosts e = (lg, Inr posts)"
  shows "\<exists>lg0 slugs lg1.
           getAllSlugs e = (lg0, Inr slugs)
         \<and> loadPosts e slugs [] = (lg1, Inr (concat (map (pushed e) slugs)))
         \<and> (\<forall>s \<in> set slugs. \<not> isl (snd (getPostBySlug e s)))
         \<and> lg = lg0 @ lg1
         \<and> sortWith (compareDates e) (concat (map (pushed e) slugs)) = Inr posts"
proof -
  obtain lg0 r0 where s: "getAllSlugs e = (lg0, r0)" by (cases "getAllSlugs e")
  with assms obtain slugs where r0: "r0 = Inr slugs"
    by (cases r0) (auto simp: getAllPosts_def)
  obtain lg1 r1 where l: "loadPosts e slugs [] = (lg1, r1)" by (cases "loadPosts e slugs []")
  with assms s r0 obtain ps where r1: "r1 = Inr ps"
    by (cases r1) (auto simp: getAllPosts_def)
  from loadPosts_Inr [of e slugs "[]" lg1 ps] l r1
  have ps: "ps = concat (map (pushed e) slugs)"
    and ok: "\<forall>s \<in> set slugs. \<not> isl (snd (getPostBySlug e s))" by auto
  from assms s r0 l r1 have "lg = lg0 @ lg1" "sortWith (compareDates e) ps = Inr posts"
    by (auto simp: getAllPosts_def)
  with s r0 l r1 ps ok show ?thesis by auto
qed

text \<open>
  The listing returns as soon as the slugs are enumerated and no load of an enumerated
  slug throws.
\<close>

lemma loadPosts_succeeds:
  "\<forall>t \<in> set ss. \<not> isl (snd (getPostBySlug e t)) \<Longrightarrow>
     \<exists>lg. loadPosts e ss acc = (lg, Inr (acc @ concat (map (pushed e) ss)))"
proof (induction ss arbitrary: acc)
  case Nil
  then show ?case by simp
next
  case (Cons s ss)
  obtain l r where g: "getPostBySlug e s = (l, r)" by (cases "getPostBySlug e s")
  with Cons.prems obtain res where r: "r = Inr res" by (cases r) auto
  from Cons.prems have rest: "\<forall>t \<in> set ss. \<not> isl (snd (getPostBySlug e t))" by simp
  show ?case
  proof (cases res)
    case None
    from Cons.IH [OF rest, of acc] obtain lg' where
      "loadPosts e ss acc = (lg', Inr (acc @ concat (map (pushed e) ss)))" by blast
    moreover have "pushed e s = []" using g r None by (simp add: pushed_def)
    ultimately show ?thesis using g r None by simp
  next
    case (Some post)
    from Cons.IH [OF rest, of "if published post \<noteq> False then acc @ [post] else acc"]
    obtain lg' where
      "loadPosts e ss (if published post \<noteq> False then acc @ [post] else acc)
         = (lg', Inr ((if published post \<noteq> False then acc @ [post] else acc)
                        @ concat (map (pushed e) ss)))" by blast
    moreover have "pushed e s = (if published post then [post] else [])"
      using g r Some by (simp add: pushed_def)
    ultimately show ?thesis using g r Some by simp
  qed
qed

lemma getAllPosts_succeeds:
  assumes "getAllSlugs e = (lg0, Inr slugs)"
      and "\<forall>t \<in> set slugs. \<not> isl (snd (getPostBySlug e t))"
  shows "\<exists>lg posts. getAllPosts e = (lg, Inr posts)"
proof -
  from loadPosts_succeeds [OF assms(2), of "[]"] obtain lg1 where
    l: "loadPosts e slugs [] = (lg1, Inr (concat (map (pushed e) slugs)))" by auto
  from sort_loaded [of e slugs] obtain posts where
    "sortWith (compareDates e) (concat (map (pushed e) slugs)) = Inr posts" by blast
  with assms(1) l have "getAllPosts e = (lg0 @ lg1, Inr posts)"
    by (simp add: getAllPosts_def)
  then show ?thesis by blast
qed

lemma listed_iff_pushed:
  assumes "getAllSlugs e = (lg0, Inr slugs)" and "getAllPosts e = (lg, Inr posts)"
      and "s \<in> set slugs"
  shows "(\<exists>p \<in> set posts. slug p = s) \<longleftrightarrow> pushed e s \<noteq> []"
    and "set posts = (\<Union>t \<in> set slugs. set (pushed e t))"
proof -
  from getAllPosts_InrD [OF assms(2)] assms(1)
  have "sortWith (compareDates e) (concat (map (pushed e) slugs)) = Inr posts" by auto
  from sortWith_Inr [OF this]
  show set: "set posts = (\<Union>t \<in> set slugs. set (pushed e t))" by simp
  show "(\<exists>p \<in> set posts. slug p = s) \<longleftrightarrow> pushed e s \<noteq> []"
  proof
    assume "\<exists>p \<in> set posts. slug p = s"
    then obtain p t where "t \<in> set slugs" "p \<in> set (pushed e t)" "slug p = s"
      using set by auto
    moreover from this have "t = s" using pushed_slug by blast
    ultimately show "pushed e s \<noteq> []" by auto
  next
    assume "pushed e s \<noteq> []"
    then obtain p where p: "p \<in> set (pushed e s)" by (cases "pushed e s") auto
    then have "slug p = s" by (rule pushed_slug)
    moreover from p assms(3) have "p \<in> set posts" using set by auto
    ultimately show "\<exists>p \<in> set posts. slug p = s" by blast
  qed
qed

subsection \<open>The sample stores, evaluated\<close>

lemma storeEnv_simps:
  "blogsDirectory (storeEnv dir entries) = ''/app/blogs''"
  "blogsDir (storeEnv dir entries) = dir"
  "files (storeEnv dir entries) = map_of (map (\<lambda>(name, raw, parsed). (name, Readable raw)) entries)"
  "matter (storeEnv dir entries) =
     (\<lambda>raw. case map_of (map (\<lambda>(name, raw, parsed). (raw, parsed)) entries) raw of
               None \<Rightarrow> Inl (LibError ''YAMLException'')
             | Some parsed \<Rightarrow> Inr parsed)"
  "newDate (storeEnv dir entries) = sampleNewDate"
  "toStr (storeEnv dir entries) = sampleToStr"
  "unifiedProcess (storeEnv dir entries) = (\<lambda>markdown. Inr (''<p>'' @ markdown @ ''</p>''))"
  by (simp_all add: storeEnv_def)

lemmas entry_defs = helloEntry_def httpEntry_def draftEntry_def untitledDraftEntry_def
  emptyTitleEntry_def undatedEntry_def badDateEntry_def objectDateEntry_def
  emptyTitleObjectEntry_def

lemmas validate_defs = validateFrontmatter_def titleErrors_def dateErrors_def
  descriptionWarnings_def field_def sampleNewDate_def sampleDates_def

lemma slugsOf_caseEnv: "slugsOf [''intro.md'', ''Intro.md'', ''intro.MD''] = [''intro'', ''Intro'']"
  by (simp add: slugsOf_def stripMd_def endsWith_def)

lemma slugsOf_repeated:
  "slugsOf [''intro.md'', ''hello-world.md'', ''intro.md''] = [''intro'', ''hello-world'', ''intro'']"
  by (simp add: slugsOf_def stripMd_def endsWith_def)

lemma files_sampleEnv:
  "files sampleEnv (''hello-world'' @ ''.md'') = Some (Readable ''raw:hello-world'')"
  "files sampleEnv (''raw-http-server'' @ ''.md'') = Some (Readable ''raw:raw-http-server'')"
  "files sampleEnv (''draft-notes'' @ ''.md'') = Some (Readable ''raw:draft-notes'')"
  "files sampleEnv (''nope'' @ ''.md'') = None"
  by (simp_all add: sampleEnv_def storeEnv_simps entry_defs)

lemma matter_sampleEnv:
  "matter sampleEnv ''raw:hello-world'' = Inr (helloData, ''Hello.'')"
  "matter sampleEnv ''raw:raw-http-server'' = Inr (httpData, ''TCP.'')"
  "matter sampleEnv ''raw:draft-notes'' = Inr (draftData, ''Later.'')"
  by (simp_all add: sampleEnv_def storeEnv_simps entry_defs)

lemma sampleEnv_simps:
  "newDate sampleEnv = sampleNewDate"
  "unifiedProcess sampleEnv = (\<lambda>markdown. Inr (''<p>'' @ markdown @ ''</p>''))"
  "blogsDir sampleEnv = DirListing [''hello-world.md'', ''raw-http-server.md'', ''draft-notes.md'',
                           ''notes.txt'']"
  by (simp_all add: sampleEnv_def storeEnv_simps)

lemma validate_sampleEnv:
  "validateFrontmatter sampleEnv helloData ''hello-world'' = ([], None)"
  "validateFrontmatter sampleEnv httpData ''raw-http-server'' = ([], None)"
  "validateFrontmatter sampleEnv draftData ''draft-notes''
     = ([warnLine ''draft-notes'' missingDescription], None)"
  by (simp_all add: validate_defs sampleEnv_simps helloData_def httpData_def draftData_def)

lemma render_sampleEnv:
  "markdownToHtml sampleEnv ''Hello.'' = Inr ''<p>Hello.</p>''"
  "markdownToHtml sampleEnv ''TCP.'' = Inr ''<p>TCP.</p>''"
  "markdownToHtml sampleEnv ''Later.'' = Inr ''<p>Later.</p>''"
  by (simp_all add: markdownToHtml_def sampleEnv_simps)

lemma getPostBySlug_hello: "getPostBySlug sampleEnv ''hello-world'' = ([], Inr (Some helloPost))"
  by (simp add: getPostBySlug_file [OF files_sampleEnv(1) matter_sampleEnv(1)]
        validate_sampleEnv render_sampleEnv)
     (simp add: helloPost_def field_def helloData_def)

lemma getPostBySlug_http: "getPostBySlug sampleEnv ''raw-http-server'' = ([], Inr (Some httpPost))"
  by (simp add: getPostBySlug_file [OF files_sampleEnv(2) matter_sampleEnv(2)]
        validate_sampleEnv render_sampleEnv)
     (simp add: httpPost_def field_def httpData_def)

lemma getPostBySlug_draft:
  "getPostBySlug sampleEnv ''draft-notes''
     = ([warnLine ''draft-notes'' missingDescription], Inr (Some draftPost))"
  by (simp add: getPostBySlug_file [OF files_sampleEnv(3) matter_sampleEnv(3)]
        validate_sampleEnv render_sampleEnv)
     (simp add: draftPost_def field_def draftData_def)

lemma slugsOf_sample:
  "slugsOf [''hello-world.md'', ''raw-http-server.md'', ''draft-notes.md'', ''notes.txt'']
     = [''hello-world'', ''raw-http-server'', ''draft-notes'']"
  by (simp add: slugsOf_def stripMd_def endsWith_def)

lemma getAllSlugs_sampleEnv:
  "getAllSlugs sampleEnv = ([], Inr [''hello-world'', ''raw-http-server'', ''draft-notes''])"
  by (simp add: getAllSlugs_def sampleEnv_simps slugsOf_sample)

lemma sample_dates:
  "newDate sampleEnv (date helloPost) = Inr (Some 1719705600000)"
  "newDate sampleEnv (date httpPost) = Inr (Some 1769904000000)"
  by (simp_all add: sampleEnv_simps sampleNewDate_def sampleDates_def helloPost_def httpPost_def)

lemma published_sample:
  "published helloPost" "published httpPost" "\<not> published draftPost"
  by (simp_all add: helloPost_def httpPost_def draftPost_def)

lemma getAllPosts_sampleEnv:
  "getAllPosts sampleEnv
     = ([warnLine ''draft-notes'' missingDescription], Inr [httpPost, helloPost])"
  by (simp add: getAllPosts_def getAllSlugs_sampleEnv getPostBySlug_hello getPostBySlug_http
        getPostBySlug_draft published_sample sortWith_def compareDates_def sample_dates)

lemma sampleEnv_loads:
  "\<forall>t \<in> set [''hello-world'', ''raw-http-server'', ''draft-notes''].
     \<not> isl (snd (getPostBySlug sampleEnv t))"
  by (simp add: getPostBySlug_hello getPostBySlug_http getPostBySlug_draft)

lemma draft_fields:
  "isString (field draftData ''title'')"
  "truthy (field draftData ''title'')"
  "truthy (field draftData ''date'')"
  "newDate sampleEnv (field draftData ''date'') = Inr (Some 1763164800000)"
  "\<not> truthy (field draftData ''description'')"
  "field draftData ''published'' = JBool False"
  "field helloData ''published'' \<noteq> JBool False"
  by (simp_all add: validate_defs sampleEnv_simps draftData_def helloData_def)

lemma files_brokenEnv:
  "files brokenEnv (''untitled'' @ ''.md'') = Some (Readable ''raw:untitled'')"
  "files brokenEnv (''empty'' @ ''.md'') = Some (Readable ''raw:empty'')"
  "files brokenEnv (''undated'' @ ''.md'') = Some (Readable ''raw:undated'')"
  "files brokenEnv (''bad-date'' @ ''.md'') = Some (Readable ''raw:bad-date'')"
  "files brokenEnv (''object-date'' @ ''.md'') = Some (Readable ''raw:object-date'')"
  "files brokenEnv (''empty-object'' @ ''.md'') = Some (Readable ''raw:empty-object'')"
  by (simp_all add: brokenEnv_def storeEnv_simps entry_defs)

lemma matter_brokenEnv:
  "matter brokenEnv ''raw:untitled'' = Inr (untitledData, ''Nothing yet.'')"
  "matter brokenEnv ''raw:empty'' = Inr (emptyData, ''Body.'')"
  "matter brokenEnv ''raw:undated'' = Inr (undatedData, ''Body.'')"
  "matter brokenEnv ''raw:bad-date'' = Inr (badDateData, ''Body.'')"
  "matter brokenEnv ''raw:object-date'' = Inr (objectDateData, ''Body.'')"
  "matter brokenEnv ''raw:empty-object'' = Inr (emptyTitleObjectData, ''Body.'')"
  by (simp_all add: brokenEnv_def storeEnv_simps entry_defs)

lemma broken_fields:
  "\<not> isString (field untitledData ''title'')"
  "field untitledData ''published'' = JBool False"
  "field undatedData ''date'' = JUndefined"
  "field badDateData ''date'' = JStr ''someday''"
  "field emptyData ''title'' = JStr []"
  "field emptyData ''date'' = JStr []"
  "field objectDateData ''title'' = JUndefined"
  "field objectDateData ''date'' = JObj [(''toString'', JNum (Finite 1))]"
  "field emptyTitleObjectData ''title'' = JStr []"
  "field emptyTitleObjectData ''date'' = JObj [(''toString'', JNum (Finite 1))]"
  by (simp_all add: field_def untitledData_def undatedData_def badDateData_def emptyData_def
        objectDateData_def emptyTitleObjectData_def)

lemma broken_dates:
  "newDate brokenEnv (JStr ''someday'') = Inr None"
  "newDate brokenEnv (JStr ''2025-11-15'') = Inr (Some 1763164800000)"
  "newDate brokenEnv (JObj [(''toString'', JNum (Finite 1))]) = Inl notPrimitive"
  by (simp_all add: brokenEnv_def storeEnv_simps sampleNewDate_def sampleDates_def)

lemma broken_converts:
  "dateConverts brokenEnv (field untitledData ''date'')"
  "dateConverts brokenEnv (field emptyData ''date'')"
  by (simp_all add: dateConverts_def field_def untitledData_def emptyData_def brokenEnv_def
        storeEnv_simps sampleNewDate_def sampleDates_def template_def)

lemma object_date_throws:
  "getPostBySlug brokenEnv ''object-date'' = ([], Inl notPrimitive)"
  "getPostBySlug brokenEnv ''empty-object'' = ([], Inl notPrimitive)"
  by (simp_all add: getPostBySlug_file [OF files_brokenEnv(5) matter_brokenEnv(5)]
        getPostBySlug_file [OF files_brokenEnv(6) matter_brokenEnv(6)]
        validateFrontmatter_throws broken_fields broken_dates)

lemma files_archiveEnv:
  "files archiveEnv (''archive'' @ ''.md'') = Some Unreadable"
  by (simp add: archiveEnv_def)

lemma files_untitledEnv:
  "files untitledEnv (''hello-world'' @ ''.md'') = Some (Readable ''raw:hello-world'')"
  "files untitledEnv (''untitled'' @ ''.md'') = Some (Readable ''raw:untitled'')"
  "files untitledEnv (''raw-http-server'' @ ''.md'') = Some (Readable ''raw:raw-http-server'')"
  by (simp_all add: untitledEnv_def storeEnv_simps entry_defs)

lemma matter_untitledEnv:
  "matter untitledEnv ''raw:hello-world'' = Inr (helloData, ''Hello.'')"
  "matter untitledEnv ''raw:untitled'' = Inr (untitledData, ''Nothing yet.'')"
  "matter untitledEnv ''raw:raw-http-server'' = Inr (httpData, ''TCP.'')"
  by (simp_all add: untitledEnv_def storeEnv_simps entry_defs)

lemma untitledEnv_simps:
  "newDate untitledEnv = sampleNewDate"
  "unifiedProcess untitledEnv = (\<lambda>markdown. Inr (''<p>'' @ markdown @ ''</p>''))"
  "blogsDir untitledEnv = DirListing [''hello-world.md'', ''untitled.md'', ''raw-http-server.md'']"
  by (simp_all add: untitledEnv_def storeEnv_simps)

lemma validate_untitledEnv:
  "validateFrontmatter untitledEnv helloData ''hello-world'' = ([], None)"
  "validateFrontmatter untitledEnv httpData ''raw-http-server'' = ([], None)"
  "validateFrontmatter untitledEnv untitledData ''untitled''
     = ([warnLine ''untitled'' missingDescription],
        Some (Error (validationMessage ''untitled'' [missingTitle])))"
  by (simp_all add: validate_defs untitledEnv_simps helloData_def httpData_def untitledData_def)

lemma getPostBySlug_untitledEnv:
  "\<not> isl (snd (getPostBySlug untitledEnv ''hello-world''))"
  "\<not> isl (snd (getPostBySlug untitledEnv ''raw-http-server''))"
  "snd (getPostBySlug untitledEnv ''untitled'')
     = Inl (Error (validationMessage ''untitled'' [missingTitle]))"
  by (simp_all add: getPostBySlug_file [OF files_untitledEnv(1) matter_untitledEnv(1)]
        getPostBySlug_file [OF files_untitledEnv(2) matter_untitledEnv(2)]
        getPostBySlug_file [OF files_untitledEnv(3) matter_untitledEnv(3)]
        validate_untitledEnv markdownToHtml_def untitledEnv_simps)

lemma slugsOf_untitled:
  "slugsOf [''hello-world.md'', ''untitled.md'', ''raw-http-server.md'']
     = [''hello-world'', ''untitled'', ''raw-http-server'']"
  by (simp add: slugsOf_def stripMd_def endsWith_def)

lemma getAllSlugs_untitledEnv:
  "getAllSlugs untitledEnv = ([], Inr [''hello-world'', ''untitled'', ''raw-http-server''])"
  by (simp add: getAllSlugs_def untitledEnv_simps slugsOf_untitled)

section \<open>The claims\<close>

text \<open>
  Claim C1, as the code has it. The slugs are the directory entries that end in the
  lower-case suffix \<open>.md\<close>, with that suffix removed, and they are compared as they
  are. When the same slug occurs twice among them, \<open>getAllSlugs\<close> throws
  \<open>Duplicate slug detected\<close> for a slug of the listing, and \<open>getAllPosts\<close> and
  \<open>getAllPostsMeta\<close> fail with the same error, so no post is returned; otherwise
  the slugs are returned. Two entries give the same slug only when they are the same
  name.
\<close>

theorem duplicate_slug_rejected:
  assumes "blogsDir e = DirListing fileNames"
  shows "(\<not> distinct (slugsOf fileNames) \<longrightarrow>
            (\<exists>s \<in> set (slugsOf fileNames).
               getAllSlugs e = ([], Inl (Error (''Duplicate slug detected: '' @ s))) \<and>
               getAllPosts e = ([], Inl (Error (''Duplicate slug detected: '' @ s))) \<and>
               getAllPostsMeta e = ([], Inl (Error (''Duplicate slug detected: '' @ s)))))
         \<and> (distinct (slugsOf fileNames) \<longrightarrow> getAllSlugs e = ([], Inr (slugsOf fileNames)))
         \<and> (distinct (slugsOf fileNames)
              = distinct (filter (\<lambda>f. endsWith f ''.md'') fileNames))"
proof (intro conjI impI)
  assume dup: "\<not> distinct (slugsOf fileNames)"
  then obtain s where s: "firstDuplicate {} (slugsOf fileNames) = Some s"
    using firstDuplicate_None [of "{}" "slugsOf fileNames"] by auto
  have slugs: "getAllSlugs e = ([], Inl (Error (''Duplicate slug detected: '' @ s)))"
    using assms s by (simp add: getAllSlugs_listing)
  have posts: "getAllPosts e = ([], Inl (Error (''Duplicate slug detected: '' @ s)))"
    using slugs by (rule getAllPosts_slugs_fail)
  have meta: "getAllPostsMeta e = ([], Inl (Error (''Duplicate slug detected: '' @ s)))"
    using posts by (rule getAllPostsMeta_fail)
  from s have "s \<in> set (slugsOf fileNames)" by (rule firstDuplicate_Some_mem)
  with slugs posts meta
  show "\<exists>s \<in> set (slugsOf fileNames).
          getAllSlugs e = ([], Inl (Error (''Duplicate slug detected: '' @ s))) \<and>
          getAllPosts e = ([], Inl (Error (''Duplicate slug detected: '' @ s))) \<and>
          getAllPostsMeta e = ([], Inl (Error (''Duplicate slug detected: '' @ s)))"
    by blast
next
  assume "distinct (slugsOf fileNames)"
  then have "firstDuplicate {} (slugsOf fileNames) = None"
    by (simp add: firstDuplicate_None)
  then show "getAllSlugs e = ([], Inr (slugsOf fileNames))"
    using assms by (simp add: getAllSlugs_listing)
next
  show "distinct (slugsOf fileNames) = distinct (filter (\<lambda>f. endsWith f ''.md'') fileNames)"
    by (rule distinct_slugsOf)
qed

theorem duplicate_slug_rejected_witness:
  "blogsDir repeatedEnv = DirListing [''intro.md'', ''hello-world.md'', ''intro.md'']
   \<and> \<not> distinct (slugsOf [''intro.md'', ''hello-world.md'', ''intro.md''])
   \<and> getAllSlugs repeatedEnv = ([], Inl (Error ''Duplicate slug detected: intro''))
   \<and> getAllPosts repeatedEnv = ([], Inl (Error ''Duplicate slug detected: intro''))
   \<and> getAllPostsMeta repeatedEnv = ([], Inl (Error ''Duplicate slug detected: intro''))"
proof -
  have dir: "blogsDir repeatedEnv = DirListing [''intro.md'', ''hello-world.md'', ''intro.md'']"
    by (simp add: repeatedEnv_def storeEnv_simps)
  have dup: "\<not> distinct (slugsOf [''intro.md'', ''hello-world.md'', ''intro.md''])"
    by (simp add: slugsOf_repeated)
  from duplicate_slug_rejected [OF dir] dup
  obtain s where s: "s \<in> set (slugsOf [''intro.md'', ''hello-world.md'', ''intro.md''])"
    and r: "getAllSlugs repeatedEnv = ([], Inl (Error (''Duplicate slug detected: '' @ s)))"
       "getAllPosts repeatedEnv = ([], Inl (Error (''Duplicate slug detected: '' @ s)))"
       "getAllPostsMeta repeatedEnv = ([], Inl (Error (''Duplicate slug detected: '' @ s)))"
    by blast
  have "getAllSlugs repeatedEnv = ([], Inl (Error ''Duplicate slug detected: intro''))"
    by (simp add: getAllSlugs_def dir slugsOf_repeated)
  with r(1) have "s = ''intro''" by simp
  with dir dup r show ?thesis by simp
qed

text \<open>
  Claim C1 as stated does not hold: \<open>intro.md\<close> and \<open>Intro.md\<close> differ by case only,
  \<open>intro.MD\<close> by the spelling of the extension only; the first two give two slugs,
  the third is not a markdown file for the code, and nothing is thrown.
\<close>

theorem case_variants_accepted:
  "getAllSlugs caseEnv = ([], Inr [''intro'', ''Intro''])"
  by (simp add: caseEnv_def getAllSlugs_def storeEnv_simps slugsOf_caseEnv)

text \<open>
  Claim C2: when \<open>getAllPosts\<close> succeeds, every two adjacent posts of its result have
  dates that parse, and the time value of the first is greater than or equal to that of
  the second.
\<close>

theorem posts_sorted_by_date_descending:
  assumes "getAllPosts e = (lg, Inr posts)" and "Suc i < length posts"
  shows "\<exists>dateA dateB.
           newDate e (date (posts ! i)) = Inr (Some dateA)
         \<and> newDate e (date (posts ! Suc i)) = Inr (Some dateB)
         \<and> dateB \<le> dateA"
proof -
  let ?loaded = "concat (map (pushed e) slugs)"
  let ?k = "\<lambda>p. the (projr (newDate e (date p)))"
  from getAllPosts_InrD [OF assms(1)] obtain slugs where
    posts: "sortWith (compareDates e) (concat (map (pushed e) slugs)) = Inr posts"
    by blast
  from sort_loaded [of e slugs] posts
  have "sorted_wrt (\<lambda>a b. ?k b \<le> ?k a) posts" by simp
  from sorted_wrt_nth_less [OF this, of i "Suc i"] assms(2)
  have le: "?k (posts ! Suc i) \<le> ?k (posts ! i)" by simp
  have "set posts = set (concat (map (pushed e) slugs))"
    using sortWith_Inr [OF posts] by simp
  moreover have "posts ! i \<in> set posts" "posts ! Suc i \<in> set posts"
    using assms(2) by simp_all
  ultimately obtain s1 s2 where "posts ! i \<in> set (pushed e s1)" "posts ! Suc i \<in> set (pushed e s2)"
    by auto
  then obtain dateA dateB where
    "newDate e (date (posts ! i)) = Inr (Some dateA)"
    "newDate e (date (posts ! Suc i)) = Inr (Some dateB)"
    by (blast dest: pushed_valid_date)
  with le show ?thesis by simp
qed

theorem posts_sorted_by_date_descending_witness:
  "getAllPosts sampleEnv
     = ([warnLine ''draft-notes'' missingDescription], Inr [httpPost, helloPost])
   \<and> Suc 0 < length [httpPost, helloPost]
   \<and> (\<exists>dateA dateB.
         newDate sampleEnv (date ([httpPost, helloPost] ! 0)) = Inr (Some dateA)
       \<and> newDate sampleEnv (date ([httpPost, helloPost] ! Suc 0)) = Inr (Some dateB)
       \<and> dateB \<le> dateA)"
proof -
  have len: "Suc 0 < length [httpPost, helloPost]" by simp
  from posts_sorted_by_date_descending [OF getAllPosts_sampleEnv len] getAllPosts_sampleEnv len
  show ?thesis by blast
qed

text \<open>
  Claim C3: a post that loads (its file is read, its frontmatter parses and passes
  validation, its body renders) is returned by \<open>getPostBySlug\<close> with \<open>published\<close>
  true unless the frontmatter value is the boolean \<open>false\<close>, so also when it is
  \<open>false\<close>. When its slug is enumerated and no load of an enumerated slug throws,
  \<open>getAllPosts\<close> returns a listing, and that post is in the listing (and the
  listing has a post of that slug) if and only if the frontmatter value is not the
  boolean \<open>false\<close>.
\<close>

theorem unpublished_filtered_from_listing_only:
  assumes "files e (s @ ''.md'') = Some (Readable raw)" and "matter e raw = Inr (data, body)"
      and "validateFrontmatter e data s = (lg1, None)"
      and "markdownToHtml e body = Inr html"
  shows "getPostBySlug e s =
           (lg1, Inr (Some \<lparr> slug = s,
                            title = field data ''title'',
                            description = field data ''description'',
                            date = field data ''date'',
                            tags = field data ''tags'',
                            published = (field data ''published'' \<noteq> JBool False),
                            content = body,
                            contentHtml = html \<rparr>))
       \<and> (\<forall>lg0 slugs.
             getAllSlugs e = (lg0, Inr slugs) \<and> s \<in> set slugs
             \<and> (\<forall>t \<in> set slugs. \<not> isl (snd (getPostBySlug e t))) \<longrightarrow>
             (\<exists>lg posts. getAllPosts e = (lg, Inr posts)
                \<and> (\<lparr> slug = s,
                       title = field data ''title'',
                       description = field data ''description'',
                       date = field data ''date'',
                       tags = field data ''tags'',
                       published = (field data ''published'' \<noteq> JBool False),
                       content = body,
                       contentHtml = html \<rparr> \<in> set posts
                     \<longleftrightarrow> field data ''published'' \<noteq> JBool False)
                \<and> ((\<exists>p \<in> set posts. slug p = s)
                     \<longleftrightarrow> field data ''published'' \<noteq> JBool False)))"
proof (intro conjI allI impI)
  let ?post = "\<lparr> slug = s,
                  title = field data ''title'',
                  description = field data ''description'',
                  date = field data ''date'',
                  tags = field data ''tags'',
                  published = (field data ''published'' \<noteq> JBool False),
                  content = body,
                  contentHtml = html \<rparr>"
  show load: "getPostBySlug e s = (lg1, Inr (Some ?post))"
    by (simp add: getPostBySlug_file [OF assms(1,2)] assms(3,4))
  fix lg0 slugs
  assume h: "getAllSlugs e = (lg0, Inr slugs) \<and> s \<in> set slugs
             \<and> (\<forall>t \<in> set slugs. \<not> isl (snd (getPostBySlug e t)))"
  then obtain lg posts where posts: "getAllPosts e = (lg, Inr posts)"
    using getAllPosts_succeeds [of e lg0 slugs] by blast
  have pushed: "pushed e s = (if field data ''published'' \<noteq> JBool False then [?post] else [])"
    by (simp add: pushed_def load)
  from h posts have set: "set posts = (\<Union>t \<in> set slugs. set (pushed e t))"
    by (intro listed_iff_pushed(2) [of e lg0 slugs lg posts s]) simp_all
  have member: "?post \<in> set posts \<longleftrightarrow> field data ''published'' \<noteq> JBool False"
  proof
    assume "?post \<in> set posts"
    then obtain t where "t \<in> set slugs" "?post \<in> set (pushed e t)" using set by auto
    moreover from this have "t = s" using pushed_slug [of ?post e t] by simp
    ultimately have "?post \<in> set (pushed e s)" by simp
    then show "field data ''published'' \<noteq> JBool False"
      by (simp add: pushed split: if_splits)
  next
    assume "field data ''published'' \<noteq> JBool False"
    then have "?post \<in> set (pushed e s)" by (simp add: pushed)
    with h show "?post \<in> set posts" using set by auto
  qed
  have "(\<exists>p \<in> set posts. slug p = s) \<longleftrightarrow> pushed e s \<noteq> []"
    using h posts by (intro listed_iff_pushed(1) [of e lg0 slugs lg posts s]) simp_all
  then have listed: "(\<exists>p \<in> set posts. slug p = s) \<longleftrightarrow> field data ''published'' \<noteq> JBool False"
    by (simp add: pushed)
  from posts member listed
  show "\<exists>lg posts. getAllPosts e = (lg, Inr posts)
          \<and> (?post \<in> set posts \<longleftrightarrow> field data ''published'' \<noteq> JBool False)
          \<and> ((\<exists>p \<in> set posts. slug p = s) \<longleftrightarrow> field data ''published'' \<noteq> JBool False)"
    by blast
qed

theorem unpublished_filtered_from_listing_only_witness:
  "files sampleEnv (''draft-notes'' @ ''.md'') = Some (Readable ''raw:draft-notes'')
   \<and> matter sampleEnv ''raw:draft-notes'' = Inr (draftData, ''Later.'')
   \<and> validateFrontmatter sampleEnv draftData ''draft-notes''
       = ([warnLine ''draft-notes'' missingDescription], None)
   \<and> markdownToHtml sampleEnv ''Later.'' = Inr ''<p>Later.</p>''
   \<and> field draftData ''published'' = JBool False
   \<and> field helloData ''published'' \<noteq> JBool False
   \<and> getAllSlugs sampleEnv = ([], Inr [''hello-world'', ''raw-http-server'', ''draft-notes''])
   \<and> snd (getPostBySlug sampleEnv ''draft-notes'') = Inr (Some draftPost)
   \<and> getAllPosts sampleEnv
       = ([warnLine ''draft-notes'' missingDescription], Inr [httpPost, helloPost])
   \<and> (\<exists>lg posts. getAllPosts sampleEnv = (lg, Inr posts)
         \<and> draftPost \<notin> set posts \<and> \<not> (\<exists>p \<in> set posts. slug p = ''draft-notes'')
         \<and> helloPost \<in> set posts)"
proof -
  note draft = unpublished_filtered_from_listing_only
    [OF files_sampleEnv(3) matter_sampleEnv(3) validate_sampleEnv(3) render_sampleEnv(3)]
  note hello = unpublished_filtered_from_listing_only
    [OF files_sampleEnv(1) matter_sampleEnv(1) validate_sampleEnv(1) render_sampleEnv(1)]
  have draftPost: "\<lparr> slug = ''draft-notes'',
                     title = field draftData ''title'',
                     description = field draftData ''description'',
                     date = field draftData ''date'',
                     tags = field draftData ''tags'',
                     published = (field draftData ''published'' \<noteq> JBool False),
                     content = ''Later.'',
                     contentHtml = ''<p>Later.</p>'' \<rparr> = draftPost"
    by (simp add: draftPost_def field_def draftData_def)
  have helloPost: "\<lparr> slug = ''hello-world'',
                     title = field helloData ''title'',
                     description = field helloData ''description'',
                     date = field helloData ''date'',
                     tags = field helloData ''tags'',
                     published = (field helloData ''published'' \<noteq> JBool False),
                     content = ''Hello.'',
                     contentHtml = ''<p>Hello.</p>'' \<rparr> = helloPost"
    by (simp add: helloPost_def field_def helloData_def)
  have mem: "''draft-notes'' \<in> set [''hello-world'', ''raw-http-server'', ''draft-notes'']"
    "''hello-world'' \<in> set [''hello-world'', ''raw-http-server'', ''draft-notes'']"
    by simp_all
  from draft have load: "snd (getPostBySlug sampleEnv ''draft-notes'') = Inr (Some draftPost)"
    by (simp add: draftPost)
  from draft getAllSlugs_sampleEnv mem(1) sampleEnv_loads draft_fields(6)
  obtain lg posts where posts: "getAllPosts sampleEnv = (lg, Inr posts)"
    and d1: "draftPost \<notin> set posts" and d2: "\<not> (\<exists>p \<in> set posts. slug p = ''draft-notes'')"
    unfolding draftPost by blast
  from hello getAllSlugs_sampleEnv mem(2) sampleEnv_loads draft_fields(7)
  obtain lg' posts' where posts': "getAllPosts sampleEnv = (lg', Inr posts')"
    and h1: "helloPost \<in> set posts'"
    unfolding helloPost by blast
  from posts posts' have "posts' = posts" by simp
  with posts d1 d2 h1
  have "\<exists>lg posts. getAllPosts sampleEnv = (lg, Inr posts)
         \<and> draftPost \<notin> set posts \<and> \<not> (\<exists>p \<in> set posts. slug p = ''draft-notes'')
         \<and> helloPost \<in> set posts"
    by blast
  with load show ?thesis
    using files_sampleEnv(3) matter_sampleEnv(3) validate_sampleEnv(3) render_sampleEnv(3)
      draft_fields(6,7) getAllSlugs_sampleEnv getAllPosts_sampleEnv
    by simp
qed

text \<open>
  Claim C4, as the code has it. For a file that exists and whose frontmatter parses,
  \<open>getPostBySlug\<close> throws a validation error whose message holds the line \<open>Missing
  or invalid 'title' field\<close> when the title is not a string (absent included),
  provided the conversions of the date check do not throw; the line \<open>Missing 'date'
  field\<close> when the date is absent or null; and the line \<open>Invalid date format\<close> with
  the value when the date is a non-empty string that does not parse. When
  \<open>new Date(data.date)\<close> throws, that exception is the error of the load and nothing
  is logged. When the title is a non-empty string, the date is present and parses, and
  the description is missing, validation throws nothing: the one effect is the logged
  warning, and the result is the post (or what the renderer threw).
\<close>

theorem validation_policy:
  assumes "files e (sl @ ''.md'') = Some (Readable raw)" and "matter e raw = Inr (data, body)"
  shows "(\<not> isString (field data ''title'')
            \<and> (truthy (field data ''date'') \<longrightarrow> dateConverts e (field data ''date'')) \<longrightarrow>
            (\<exists>msg. snd (getPostBySlug e sl) = Inl (Error msg)
                 \<and> sublist ''Validation failed'' msg \<and> sublist missingTitle msg))
       \<and> (field data ''date'' = JUndefined \<or> field data ''date'' = JNull \<longrightarrow>
            (\<exists>msg. snd (getPostBySlug e sl) = Inl (Error msg)
                 \<and> sublist ''Validation failed'' msg \<and> sublist missingDate msg))
       \<and> (\<forall>d. field data ''date'' = JStr d \<and> d \<noteq> [] \<and> newDate e (JStr d) = Inr None \<longrightarrow>
            (\<exists>msg. snd (getPostBySlug e sl) = Inl (Error msg)
                 \<and> sublist ''Validation failed'' msg
                 \<and> sublist (''Invalid date format: '' @ d) msg))
       \<and> (\<forall>err. truthy (field data ''date'') \<and> newDate e (field data ''date'') = Inl err \<longrightarrow>
            getPostBySlug e sl = ([], Inl err))
       \<and> (\<forall>t. isString (field data ''title'') \<and> truthy (field data ''title'')
              \<and> truthy (field data ''date'') \<and> newDate e (field data ''date'') = Inr (Some t)
              \<and> \<not> truthy (field data ''description'') \<longrightarrow>
            validateFrontmatter e data sl = ([warnLine sl missingDescription], None)
          \<and> getPostBySlug e sl =
              ([warnLine sl missingDescription],
               case markdownToHtml e body of
                 Inl err \<Rightarrow> Inl err
               | Inr html \<Rightarrow>
                   Inr (Some \<lparr> slug = sl,
                               title = field data ''title'',
                               description = field data ''description'',
                               date = field data ''date'',
                               tags = field data ''tags'',
                               published = (field data ''published'' \<noteq> JBool False),
                               content = body,
                               contentHtml = html \<rparr>)))"
proof (intro conjI impI allI)
  assume h: "\<not> isString (field data ''title'')
            \<and> (truthy (field data ''date'') \<longrightarrow> dateConverts e (field data ''date''))"
  then obtain dateLines where d: "dateErrors e data = Inr dateLines"
    using dateErrors_converts [of data e] by blast
  from h have "missingTitle \<in> set (titleErrors data @ dateLines)"
    by (simp add: titleErrors_def)
  with d show "\<exists>msg. snd (getPostBySlug e sl) = Inl (Error msg)
                 \<and> sublist ''Validation failed'' msg \<and> sublist missingTitle msg"
    by (rule getPostBySlug_validation_error [OF assms])
next
  assume "field data ''date'' = JUndefined \<or> field data ''date'' = JNull"
  then have "\<not> truthy (field data ''date'')" by auto
  then have d: "dateErrors e data = Inr [missingDate]" by (rule dateErrors_falsy)
  have "missingDate \<in> set (titleErrors data @ [missingDate])" by simp
  with d show "\<exists>msg. snd (getPostBySlug e sl) = Inl (Error msg)
                 \<and> sublist ''Validation failed'' msg \<and> sublist missingDate msg"
    by (rule getPostBySlug_validation_error [OF assms])
next
  fix d
  assume "field data ''date'' = JStr d \<and> d \<noteq> [] \<and> newDate e (JStr d) = Inr None"
  then have lines: "dateErrors e data = Inr [''Invalid date format: '' @ d]"
    by (simp add: dateErrors_def invalidDate_def template_def)
  have "''Invalid date format: '' @ d \<in> set (titleErrors data @ [''Invalid date format: '' @ d])"
    by simp
  with lines show "\<exists>msg. snd (getPostBySlug e sl) = Inl (Error msg)
                 \<and> sublist ''Validation failed'' msg
                 \<and> sublist (''Invalid date format: '' @ d) msg"
    by (rule getPostBySlug_validation_error [OF assms])
next
  fix err
  assume "truthy (field data ''date'') \<and> newDate e (field data ''date'') = Inl err"
  then have "validateFrontmatter e data sl = ([], Some err)"
    by (simp add: validateFrontmatter_throws)
  then show "getPostBySlug e sl = ([], Inl err)"
    by (simp add: getPostBySlug_file [OF assms])
next
  fix t
  assume ok: "isString (field data ''title'') \<and> truthy (field data ''title'')
              \<and> truthy (field data ''date'') \<and> newDate e (field data ''date'') = Inr (Some t)
              \<and> \<not> truthy (field data ''description'')"
  then have w: "descriptionWarnings data = [missingDescription]"
    by (simp add: descriptionWarnings_def)
  from ok have "titleErrors data = []" by (simp add: titleErrors_def)
  moreover from ok have "dateErrors e data = Inr []" by (simp add: dateErrors_valid)
  ultimately show v: "validateFrontmatter e data sl = ([warnLine sl missingDescription], None)"
    by (simp add: validateFrontmatter_ok w)
  show "getPostBySlug e sl =
              ([warnLine sl missingDescription],
               case markdownToHtml e body of
                 Inl err \<Rightarrow> Inl err
               | Inr html \<Rightarrow>
                   Inr (Some \<lparr> slug = sl,
                               title = field data ''title'',
                               description = field data ''description'',
                               date = field data ''date'',
                               tags = field data ''tags'',
                               published = (field data ''published'' \<noteq> JBool False),
                               content = body,
                               contentHtml = html \<rparr>))"
    by (simp add: getPostBySlug_file [OF assms] v split: sum.splits)
qed

theorem validation_policy_witness:
  "(files brokenEnv (''untitled'' @ ''.md'') = Some (Readable ''raw:untitled'')
    \<and> matter brokenEnv ''raw:untitled'' = Inr (untitledData, ''Nothing yet.'')
    \<and> \<not> isString (field untitledData ''title'')
    \<and> dateConverts brokenEnv (field untitledData ''date'')
    \<and> (\<exists>msg. snd (getPostBySlug brokenEnv ''untitled'') = Inl (Error msg)
            \<and> sublist ''Validation failed'' msg \<and> sublist missingTitle msg))
   \<and> (files brokenEnv (''undated'' @ ''.md'') = Some (Readable ''raw:undated'')
    \<and> matter brokenEnv ''raw:undated'' = Inr (undatedData, ''Body.'')
    \<and> field undatedData ''date'' = JUndefined
    \<and> (\<exists>msg. snd (getPostBySlug brokenEnv ''undated'') = Inl (Error msg)
            \<and> sublist ''Validation failed'' msg \<and> sublist missingDate msg))
   \<and> (files brokenEnv (''bad-date'' @ ''.md'') = Some (Readable ''raw:bad-date'')
    \<and> matter brokenEnv ''raw:bad-date'' = Inr (badDateData, ''Body.'')
    \<and> field badDateData ''date'' = JStr ''someday''
    \<and> newDate brokenEnv (JStr ''someday'') = Inr None
    \<and> (\<exists>msg. snd (getPostBySlug brokenEnv ''bad-date'') = Inl (Error msg)
            \<and> sublist ''Validation failed'' msg
            \<and> sublist (''Invalid date format: '' @ ''someday'') msg))
   \<and> (files sampleEnv (''draft-notes'' @ ''.md'') = Some (Readable ''raw:draft-notes'')
    \<and> matter sampleEnv ''raw:draft-notes'' = Inr (draftData, ''Later.'')
    \<and> isString (field draftData ''title'') \<and> truthy (field draftData ''title'')
    \<and> truthy (field draftData ''date'')
    \<and> newDate sampleEnv (field draftData ''date'') = Inr (Some 1763164800000)
    \<and> \<not> truthy (field draftData ''description'')
    \<and> getPostBySlug sampleEnv ''draft-notes''
        = ([warnLine ''draft-notes'' missingDescription], Inr (Some draftPost)))
   \<and> (files brokenEnv (''object-date'' @ ''.md'') = Some (Readable ''raw:object-date'')
    \<and> matter brokenEnv ''raw:object-date'' = Inr (objectDateData, ''Body.'')
    \<and> truthy (field objectDateData ''date'')
    \<and> newDate brokenEnv (field objectDateData ''date'') = Inl notPrimitive
    \<and> getPostBySlug brokenEnv ''object-date'' = ([], Inl notPrimitive))"
proof -
  note object = validation_policy [OF files_brokenEnv(5) matter_brokenEnv(5)]
  have thrown: "truthy (field objectDateData ''date'')
      \<and> newDate brokenEnv (field objectDateData ''date'') = Inl notPrimitive"
    by (simp add: broken_fields(8) broken_dates(3))
  with object have 5: "getPostBySlug brokenEnv ''object-date'' = ([], Inl notPrimitive)"
    by blast
  note untitled = validation_policy [OF files_brokenEnv(1) matter_brokenEnv(1)]
  note undated = validation_policy [OF files_brokenEnv(3) matter_brokenEnv(3)]
  note bad = validation_policy [OF files_brokenEnv(4) matter_brokenEnv(4)]
  note draft = validation_policy [OF files_sampleEnv(3) matter_sampleEnv(3)]
  from untitled broken_fields(1) broken_converts(1)
  have 1: "\<exists>msg. snd (getPostBySlug brokenEnv ''untitled'') = Inl (Error msg)
            \<and> sublist ''Validation failed'' msg \<and> sublist missingTitle msg"
    by blast
  from undated broken_fields(3)
  have 2: "\<exists>msg. snd (getPostBySlug brokenEnv ''undated'') = Inl (Error msg)
            \<and> sublist ''Validation failed'' msg \<and> sublist missingDate msg"
    by blast
  have "field badDateData ''date'' = JStr ''someday'' \<and> ''someday'' \<noteq> []
          \<and> newDate brokenEnv (JStr ''someday'') = Inr None"
    using broken_fields(4) broken_dates(1) by simp
  with bad
  have 3: "\<exists>msg. snd (getPostBySlug brokenEnv ''bad-date'') = Inl (Error msg)
            \<and> sublist ''Validation failed'' msg
            \<and> sublist (''Invalid date format: '' @ ''someday'') msg"
    by blast
  from draft draft_fields(1-5)
  have "getPostBySlug sampleEnv ''draft-notes'' =
          ([warnLine ''draft-notes'' missingDescription],
           case markdownToHtml sampleEnv ''Later.'' of
             Inl err \<Rightarrow> Inl err
           | Inr html \<Rightarrow>
               Inr (Some \<lparr> slug = ''draft-notes'',
                           title = field draftData ''title'',
                           description = field draftData ''description'',
                           date = field draftData ''date'',
                           tags = field draftData ''tags'',
                           published = (field draftData ''published'' \<noteq> JBool False),
                           content = ''Later.'',
                           contentHtml = html \<rparr>))"
    by blast
  then have 4: "getPostBySlug sampleEnv ''draft-notes''
        = ([warnLine ''draft-notes'' missingDescription], Inr (Some draftPost))"
    by (simp add: render_sampleEnv draftPost_def field_def draftData_def)
  from 1 2 3 4 5 thrown show ?thesis
    using files_brokenEnv matter_brokenEnv broken_fields(1,3,4) broken_dates(1)
      broken_converts(1) files_sampleEnv(3) matter_sampleEnv(3) draft_fields(1-5)
    by simp
qed

text \<open>
  Claim C4 as stated does not hold: the file \<open>object-date.md\<close> exists and has no
  title, and its date is the object \<open>{toString: 1}\<close>; \<open>new Date(data.date)\<close>
  throws a \<open>TypeError\<close> before the errors are thrown, so the load fails with no
  validation error and no message naming the title.
\<close>

theorem object_date_masks_missing_title:
  "files brokenEnv (''object-date'' @ ''.md'') = Some (Readable ''raw:object-date'')
   \<and> matter brokenEnv ''raw:object-date'' = Inr (objectDateData, ''Body.'')
   \<and> field objectDateData ''title'' = JUndefined
   \<and> getPostBySlug brokenEnv ''object-date''
       = ([], Inl (TypeError ''Cannot convert object to primitive value''))"
  using files_brokenEnv(5) matter_brokenEnv(5) broken_fields(7) object_date_throws(1)
  by (simp add: notPrimitive_def)

text \<open>
  Claim C5: when the slugs are enumerated and the load of one of them throws, as it
  does when its frontmatter fails validation, \<open>getAllPosts\<close> and
  \<open>getAllPostsMeta\<close> throw and return no posts, whatever the \<open>published\<close> value
  of the failing post is; the error is that of the first slug that fails, so it is
  that very error when no other post fails.
\<close>

theorem invalid_post_aborts_listing:
  assumes "getAllSlugs e = (lg, Inr slugs)"
      and "s \<in> set slugs"
      and "snd (getPostBySlug e s) = Inl err"
  shows "isl (snd (getAllPosts e)) \<and> isl (snd (getAllPostsMeta e))
       \<and> ((\<forall>t \<in> set slugs. t \<noteq> s \<longrightarrow> \<not> isl (snd (getPostBySlug e t))) \<longrightarrow>
            snd (getAllPosts e) = Inl err \<and> snd (getAllPostsMeta e) = Inl err)"
proof (intro conjI impI)
  have "isl (snd (loadPosts e slugs []))"
    using assms(2,3) by (rule loadPosts_fails)
  then show fails: "isl (snd (getAllPosts e))"
    by (auto simp: snd_getAllPosts [OF assms(1)] split: sum.splits)
  then show "isl (snd (getAllPostsMeta e))"
    by (auto simp: snd_getAllPostsMeta split: sum.splits)
next
  assume only: "\<forall>t \<in> set slugs. t \<noteq> s \<longrightarrow> \<not> isl (snd (getPostBySlug e t))"
  have "snd (loadPosts e slugs []) = Inl err"
    using assms(2,3) only by (rule loadPosts_only_failure)
  then show posts: "snd (getAllPosts e) = Inl err"
    by (simp add: snd_getAllPosts [OF assms(1)])
  then show "snd (getAllPostsMeta e) = Inl err"
    by (simp add: snd_getAllPostsMeta)
qed

theorem invalid_post_aborts_listing_witness:
  "getAllSlugs untitledEnv = ([], Inr [''hello-world'', ''untitled'', ''raw-http-server''])
   \<and> ''untitled'' \<in> set [''hello-world'', ''untitled'', ''raw-http-server'']
   \<and> snd (getPostBySlug untitledEnv ''untitled'')
       = Inl (Error (validationMessage ''untitled'' [missingTitle]))
   \<and> field untitledData ''published'' = JBool False
   \<and> \<not> isl (snd (getPostBySlug untitledEnv ''hello-world''))
   \<and> \<not> isl (snd (getPostBySlug untitledEnv ''raw-http-server''))
   \<and> snd (getAllPosts untitledEnv) = Inl (Error (validationMessage ''untitled'' [missingTitle]))
   \<and> snd (getAllPostsMeta untitledEnv)
       = Inl (Error (validationMessage ''untitled'' [missingTitle]))"
proof -
  have mem: "''untitled'' \<in> set [''hello-world'', ''untitled'', ''raw-http-server'']" by simp
  have others: "\<forall>t \<in> set [''hello-world'', ''untitled'', ''raw-http-server''].
         t \<noteq> ''untitled'' \<longrightarrow> \<not> isl (snd (getPostBySlug untitledEnv t))"
    using getPostBySlug_untitledEnv(1,2) by simp
  from invalid_post_aborts_listing
         [OF getAllSlugs_untitledEnv mem getPostBySlug_untitledEnv(3)] others
  have "snd (getAllPosts untitledEnv) = Inl (Error (validationMessage ''untitled'' [missingTitle]))
      \<and> snd (getAllPostsMeta untitledEnv)
          = Inl (Error (validationMessage ''untitled'' [missingTitle]))"
    by blast
  with getAllSlugs_untitledEnv mem getPostBySlug_untitledEnv broken_fields(2)
  show ?thesis by blast
qed

text \<open>
  Claim C6, as the code has it. For a slug whose path does not exist
  (\<open>fs.existsSync\<close> is false), \<open>getPostBySlug\<close> returns \<open>null\<close>, throws nothing
  and logs nothing; \<open>null\<close> is returned in no other case, so it is never the
  outcome of a failure; and where the path exists and cannot be read as a file, the
  read error is thrown.
\<close>

theorem unknown_slug_is_null:
  "(files e (sl @ ''.md'') = None \<longrightarrow> getPostBySlug e sl = ([], Inr None))
   \<and> (snd (getPostBySlug e sl) = Inr None \<longrightarrow> files e (sl @ ''.md'') = None)
   \<and> (files e (sl @ ''.md'') = Some Unreadable \<longrightarrow>
        getPostBySlug e sl = ([], Inl (FsError (sl @ ''.md''))))"
proof (intro conjI impI)
  assume "files e (sl @ ''.md'') = None"
  then show "getPostBySlug e sl = ([], Inr None)" by (simp add: getPostBySlug_def)
next
  assume "snd (getPostBySlug e sl) = Inr None"
  then show "files e (sl @ ''.md'') = None" by (rule getPostBySlug_null_only_if_absent)
next
  assume "files e (sl @ ''.md'') = Some Unreadable"
  then show "getPostBySlug e sl = ([], Inl (FsError (sl @ ''.md'')))"
    by (simp add: getPostBySlug_def)
qed

theorem unknown_slug_is_null_witness:
  "files sampleEnv (''nope'' @ ''.md'') = None
   \<and> getPostBySlug sampleEnv ''nope'' = ([], Inr None)
   \<and> snd (getPostBySlug sampleEnv ''hello-world'') \<noteq> Inr None
   \<and> files sampleEnv (''hello-world'' @ ''.md'') \<noteq> None"
proof -
  from unknown_slug_is_null [of sampleEnv "''nope''"] files_sampleEnv(4)
  have "getPostBySlug sampleEnv ''nope'' = ([], Inr None)" by blast
  moreover have loaded: "snd (getPostBySlug sampleEnv ''hello-world'') \<noteq> Inr None"
    by (simp add: getPostBySlug_hello)
  moreover have "files sampleEnv (''hello-world'' @ ''.md'') \<noteq> None"
    using files_sampleEnv(1) by simp
  ultimately show ?thesis using files_sampleEnv(4) by blast
qed

text \<open>
  Claim C6 as stated does not hold: \<open>archive.md\<close> is a directory of the content
  directory, so the slug \<open>archive\<close> has no markdown file; the path exists,
  \<open>fs.readFileSync\<close> throws, and the result is that error and not \<open>null\<close>.
\<close>

theorem directory_slug_throws:
  "files archiveEnv (''archive'' @ ''.md'') = Some Unreadable
   \<and> getPostBySlug archiveEnv ''archive'' = ([], Inl (FsError ''archive.md''))"
  using files_archiveEnv by (simp add: getPostBySlug_def)

text \<open>
  Claim C7: when the blogs directory does not exist, \<open>getAllSlugs\<close>, \<open>getAllPosts\<close>
  and \<open>getAllPostsMeta\<close> return the empty list, and the one effect is the warning
  \<open>Blogs directory not found\<close>.
\<close>

theorem missing_directory_is_empty:
  assumes "blogsDir e = DirMissing"
  shows "getAllSlugs e = ([''Blogs directory not found: '' @ blogsDirectory e], Inr [])
       \<and> getAllPosts e = ([''Blogs directory not found: '' @ blogsDirectory e], Inr [])
       \<and> getAllPostsMeta e = ([''Blogs directory not found: '' @ blogsDirectory e], Inr [])"
proof -
  have slugs: "getAllSlugs e = ([''Blogs directory not found: '' @ blogsDirectory e], Inr [])"
    using assms by (simp add: getAllSlugs_def)
  have posts: "getAllPosts e = ([''Blogs directory not found: '' @ blogsDirectory e], Inr [])"
    by (simp add: getAllPosts_def slugs sortWith_Nil)
  have "getAllPostsMeta e = ([''Blogs directory not found: '' @ blogsDirectory e], Inr (map toMeta []))"
    using posts by (rule getAllPostsMeta_ok)
  with slugs posts show ?thesis by simp
qed

theorem missing_directory_is_empty_witness:
  "blogsDir emptyEnv = DirMissing
   \<and> getAllSlugs emptyEnv = ([''Blogs directory not found: /app/blogs''], Inr [])
   \<and> getAllPosts emptyEnv = ([''Blogs directory not found: /app/blogs''], Inr [])
   \<and> getAllPostsMeta emptyEnv = ([''Blogs directory not found: /app/blogs''], Inr [])"
proof -
  have dir: "blogsDir emptyEnv = DirMissing"
    by (simp add: emptyEnv_def storeEnv_simps)
  have name: "blogsDirectory emptyEnv = ''/app/blogs''"
    by (simp add: emptyEnv_def storeEnv_simps)
  from dir missing_directory_is_empty [OF dir] show ?thesis
    by (simp add: name)
qed

text \<open>
  Claim C8: when \<open>getAllPosts\<close> succeeds, \<open>getAllPostsMeta\<close> succeeds with the same
  log and a list of the same length whose element at each index has the slug, title,
  description, date and tags of the post at that index; its elements are of the type
  \<open>BlogPostMeta\<close>, which has no other field.
\<close>

theorem meta_is_projection:
  assumes "getAllPosts e = (lg, Inr posts)"
  shows "\<exists>metas. getAllPostsMeta e = (lg, Inr metas)
           \<and> length metas = length posts
           \<and> (\<forall>i < length posts.
                 slug (metas ! i) = slug (posts ! i)
               \<and> title (metas ! i) = title (posts ! i)
               \<and> description (metas ! i) = description (posts ! i)
               \<and> date (metas ! i) = date (posts ! i)
               \<and> tags (metas ! i) = tags (posts ! i))"
proof -
  have "getAllPostsMeta e = (lg, Inr (map toMeta posts))"
    using assms by (rule getAllPostsMeta_ok)
  moreover have "length (map toMeta posts) = length posts" by simp
  moreover have "\<forall>i < length posts.
                 slug (map toMeta posts ! i) = slug (posts ! i)
               \<and> title (map toMeta posts ! i) = title (posts ! i)
               \<and> description (map toMeta posts ! i) = description (posts ! i)
               \<and> date (map toMeta posts ! i) = date (posts ! i)
               \<and> tags (map toMeta posts ! i) = tags (posts ! i)"
    by (simp add: toMeta_def)
  ultimately show ?thesis by blast
qed

theorem meta_is_projection_witness:
  "getAllPosts sampleEnv
     = ([warnLine ''draft-notes'' missingDescription], Inr [httpPost, helloPost])
   \<and> (\<exists>metas. getAllPostsMeta sampleEnv
                  = ([warnLine ''draft-notes'' missingDescription], Inr metas)
         \<and> length metas = 2
         \<and> slug (metas ! 0) = ''raw-http-server'' \<and> title (metas ! 0) = JStr ''From Bytes to Bytes''
         \<and> slug (metas ! 1) = ''hello-world'' \<and> date (metas ! 1) = JStr ''2024-06-30'')"
proof -
  from meta_is_projection [OF getAllPosts_sampleEnv] obtain metas where
    m: "getAllPostsMeta sampleEnv = ([warnLine ''draft-notes'' missingDescription], Inr metas)"
    and len: "length metas = length [httpPost, helloPost]"
    and fields: "\<forall>i < length [httpPost, helloPost].
                 slug (metas ! i) = slug ([httpPost, helloPost] ! i)
               \<and> title (metas ! i) = title ([httpPost, helloPost] ! i)
               \<and> description (metas ! i) = description ([httpPost, helloPost] ! i)
               \<and> date (metas ! i) = date ([httpPost, helloPost] ! i)
               \<and> tags (metas ! i) = tags ([httpPost, helloPost] ! i)"
    by blast
  from fields have "slug (metas ! 0) = slug httpPost" "title (metas ! 0) = title httpPost"
    by simp_all
  moreover from fields have "slug (metas ! 1) = slug helloPost" "date (metas ! 1) = date helloPost"
    by simp_all
  ultimately have "slug (metas ! 0) = ''raw-http-server''"
    "title (metas ! 0) = JStr ''From Bytes to Bytes''"
    "slug (metas ! 1) = ''hello-world''" "date (metas ! 1) = JStr ''2024-06-30''"
    by (simp_all add: httpPost_def helloPost_def)
  with m len getAllPosts_sampleEnv show ?thesis by auto
qed

text \<open>
  Claim C10, as the code has it. For a file that exists and whose frontmatter parses,
  an empty-string title makes \<open>getPostBySlug\<close> throw the validation error with the
  line \<open>Missing or invalid 'title' field\<close>, provided the conversions of the date check
  do not throw, and an empty-string date makes it throw the one with the line
  \<open>Missing 'date' field\<close>. The checks test falsiness: any falsy title or date gives
  that line, and validation of a frontmatter with the empty string does what it does on
  one that lacks the field and agrees on the other fields.
\<close>

theorem empty_string_fields_rejected:
  assumes "files e (sl @ ''.md'') = Some (Readable raw)" and "matter e raw = Inr (data, body)"
  shows "(field data ''title'' = JStr []
            \<and> (truthy (field data ''date'') \<longrightarrow> dateConverts e (field data ''date'')) \<longrightarrow>
            (\<exists>msg. snd (getPostBySlug e sl) = Inl (Error msg)
                 \<and> sublist ''Validation failed'' msg \<and> sublist missingTitle msg))
       \<and> (field data ''date'' = JStr [] \<longrightarrow>
            (\<exists>msg. snd (getPostBySlug e sl) = Inl (Error msg)
                 \<and> sublist ''Validation failed'' msg \<and> sublist missingDate msg))
       \<and> (\<not> truthy (field data ''title'') \<longrightarrow> titleErrors data = [missingTitle])
       \<and> (\<not> truthy (field data ''date'') \<longrightarrow> dateErrors e data = Inr [missingDate])
       \<and> (\<forall>data'. field data ''title'' = JStr []
                 \<and> field data' ''title'' = JUndefined
                 \<and> field data' ''date'' = field data ''date''
                 \<and> field data' ''description'' = field data ''description'' \<longrightarrow>
                 validateFrontmatter e data' sl = validateFrontmatter e data sl)
       \<and> (\<forall>data'. field data ''date'' = JStr []
                 \<and> field data' ''date'' = JUndefined
                 \<and> field data' ''title'' = field data ''title''
                 \<and> field data' ''description'' = field data ''description'' \<longrightarrow>
                 validateFrontmatter e data' sl = validateFrontmatter e data sl)"
proof (intro conjI impI allI)
  assume h: "field data ''title'' = JStr []
            \<and> (truthy (field data ''date'') \<longrightarrow> dateConverts e (field data ''date''))"
  then obtain dateLines where d: "dateErrors e data = Inr dateLines"
    using dateErrors_converts [of data e] by blast
  from h have "missingTitle \<in> set (titleErrors data @ dateLines)"
    by (simp add: titleErrors_def)
  with d show "\<exists>msg. snd (getPostBySlug e sl) = Inl (Error msg)
                 \<and> sublist ''Validation failed'' msg \<and> sublist missingTitle msg"
    by (rule getPostBySlug_validation_error [OF assms])
next
  assume "field data ''date'' = JStr []"
  then have "\<not> truthy (field data ''date'')" by simp
  then have d: "dateErrors e data = Inr [missingDate]" by (rule dateErrors_falsy)
  have "missingDate \<in> set (titleErrors data @ [missingDate])" by simp
  with d show "\<exists>msg. snd (getPostBySlug e sl) = Inl (Error msg)
                 \<and> sublist ''Validation failed'' msg \<and> sublist missingDate msg"
    by (rule getPostBySlug_validation_error [OF assms])
next
  assume "\<not> truthy (field data ''title'')"
  then show "titleErrors data = [missingTitle]" by (simp add: titleErrors_def)
next
  assume "\<not> truthy (field data ''date'')"
  then show "dateErrors e data = Inr [missingDate]" by (rule dateErrors_falsy)
next
  fix data'
  assume "field data ''title'' = JStr []
                 \<and> field data' ''title'' = JUndefined
                 \<and> field data' ''date'' = field data ''date''
                 \<and> field data' ''description'' = field data ''description''"
  then show "validateFrontmatter e data' sl = validateFrontmatter e data sl"
    by (intro validateFrontmatter_cong dateErrors_cong)
       (simp_all add: titleErrors_def descriptionWarnings_def)
next
  fix data'
  assume "field data ''date'' = JStr []
                 \<and> field data' ''date'' = JUndefined
                 \<and> field data' ''title'' = field data ''title''
                 \<and> field data' ''description'' = field data ''description''"
  then show "validateFrontmatter e data' sl = validateFrontmatter e data sl"
    by (intro validateFrontmatter_cong)
       (simp_all add: titleErrors_def dateErrors_def descriptionWarnings_def)
qed

theorem empty_string_fields_rejected_witness:
  "files brokenEnv (''empty'' @ ''.md'') = Some (Readable ''raw:empty'')
   \<and> matter brokenEnv ''raw:empty'' = Inr (emptyData, ''Body.'')
   \<and> field emptyData ''title'' = JStr [] \<and> field emptyData ''date'' = JStr []
   \<and> dateConverts brokenEnv (field emptyData ''date'')
   \<and> (\<exists>msg. snd (getPostBySlug brokenEnv ''empty'') = Inl (Error msg)
           \<and> sublist ''Validation failed'' msg \<and> sublist missingTitle msg)
   \<and> (\<exists>msg. snd (getPostBySlug brokenEnv ''empty'') = Inl (Error msg)
           \<and> sublist ''Validation failed'' msg \<and> sublist missingDate msg)"
proof -
  note empty = empty_string_fields_rejected [OF files_brokenEnv(2) matter_brokenEnv(2)]
  from empty broken_fields(5) broken_converts(2)
  have 1: "\<exists>msg. snd (getPostBySlug brokenEnv ''empty'') = Inl (Error msg)
           \<and> sublist ''Validation failed'' msg \<and> sublist missingTitle msg"
    by blast
  from empty broken_fields(6)
  have 2: "\<exists>msg. snd (getPostBySlug brokenEnv ''empty'') = Inl (Error msg)
           \<and> sublist ''Validation failed'' msg \<and> sublist missingDate msg"
    by blast
  from 1 2 files_brokenEnv(2) matter_brokenEnv(2) broken_fields(5,6) broken_converts(2)
  show ?thesis by blast
qed

text \<open>
  Claim C10 as stated does not hold: the frontmatter of \<open>empty-object.md\<close> has
  \<open>title: ""\<close> and the date \<open>{toString: 1}\<close>; \<open>new Date(data.date)\<close> throws a
  \<open>TypeError\<close> before the errors are thrown, so the load does not fail with the
  title's validation error.
\<close>

theorem object_date_masks_empty_title:
  "files brokenEnv (''empty-object'' @ ''.md'') = Some (Readable ''raw:empty-object'')
   \<and> matter brokenEnv ''raw:empty-object'' = Inr (emptyTitleObjectData, ''Body.'')
   \<and> field emptyTitleObjectData ''title'' = JStr []
   \<and> getPostBySlug brokenEnv ''empty-object''
       = ([], Inl (TypeError ''Cannot convert object to primitive value''))"
  using files_brokenEnv(6) matter_brokenEnv(6) broken_fields(9) object_date_throws(2)
  by (simp add: notPrimitive_def)

end
